theory Spec2Isabelle
  imports Complex_Main
begin

section \<open>JavaScript values\<close>

text \<open>
  The server (\<^verbatim>\<open>src/server.js\<close>) relays JSON documents between the Azure management API
  and a dashboard. Every value it touches is a parsed JSON document, or \<^verbatim>\<open>undefined\<close> where a
  property or an array element is absent. A number is a finite IEEE-754 binary64 value and
  is represented by the rational number it denotes exactly (\<^verbatim>\<open>NaN\<close> and the infinities do not
  occur in a JSON document of finite literals). An object is an association list; the first
  binding of a key is the property's value.
\<close>

datatype jsv =
    JUndef
  | JNull
  | JBool bool
  | JNum rat
  | JStr string
  | JArr "jsv list"
  | JObj "(string \<times> jsv) list"

text \<open>
  What the code can raise: a \<^verbatim>\<open>TypeError\<close> of the language (a property read on \<^verbatim>\<open>null\<close> or
  \<^verbatim>\<open>undefined\<close>, a call of something that is no function, destructuring of something that is
  not iterable), or an \<^verbatim>\<open>Error\<close> the code throws itself, with its message.
\<close>

datatype js_error = TypeError | Failed string

text \<open>\<^verbatim>\<open>!v\<close> is false: the value is none of \<^verbatim>\<open>undefined\<close>, \<^verbatim>\<open>null\<close>, \<^verbatim>\<open>false\<close>, \<^verbatim>\<open>0\<close>, \<^verbatim>\<open>""\<close>.\<close>

fun truthy :: "jsv \<Rightarrow> bool" where
  "truthy JUndef = False"
| "truthy JNull = False"
| "truthy (JBool b) = b"
| "truthy (JNum q) = (q \<noteq> 0)"
| "truthy (JStr s) = (s \<noteq> [])"
| "truthy (JArr xs) = True"
| "truthy (JObj kvs) = True"

fun nullish :: "jsv \<Rightarrow> bool" where
  "nullish JUndef = True"
| "nullish JNull = True"
| "nullish v = False"

text \<open>
  \<^verbatim>\<open>v.name\<close>, for the property names the server reads (\<^verbatim>\<open>startDate\<close>, \<^verbatim>\<open>endDate\<close>,
  \<^verbatim>\<open>access_token\<close>, \<^verbatim>\<open>value\<close>, \<^verbatim>\<open>subscriptionId\<close>, \<^verbatim>\<open>displayName\<close>, \<^verbatim>\<open>properties\<close>, \<^verbatim>\<open>rows\<close>,
  \<^verbatim>\<open>name\<close>, \<^verbatim>\<open>pricingTier\<close>): none of them is a property that a string, a number, a boolean
  or an array inherits, so on those the read yields \<^verbatim>\<open>undefined\<close>. On \<^verbatim>\<open>null\<close> and
  \<^verbatim>\<open>undefined\<close> the read throws.
\<close>

fun getprop :: "jsv \<Rightarrow> string \<Rightarrow> js_error + jsv" where
  "getprop JUndef k = Inl TypeError"
| "getprop JNull k = Inl TypeError"
| "getprop (JObj kvs) k = Inr (case map_of kvs k of None \<Rightarrow> JUndef | Some v \<Rightarrow> v)"
| "getprop v k = Inr JUndef"

text \<open>\<^verbatim>\<open>v?.name\<close>: \<^verbatim>\<open>undefined\<close> when \<^verbatim>\<open>v\<close> is \<^verbatim>\<open>null\<close> or \<^verbatim>\<open>undefined\<close>, the property otherwise.\<close>

fun optprop :: "jsv \<Rightarrow> string \<Rightarrow> jsv" where
  "optprop (JObj kvs) k = (case map_of kvs k of None \<Rightarrow> JUndef | Some v \<Rightarrow> v)"
| "optprop v k = JUndef"

text \<open>The decimal spelling of an array index, which is the property key \<^verbatim>\<open>row[i]\<close> reads.\<close>

definition digit :: "nat \<Rightarrow> char" where
  "digit n = ''0123456789'' ! (n mod 10)"

fun index_key :: "nat \<Rightarrow> string" where
  "index_key n = (if n < 10 then [digit n] else index_key (n div 10) @ [digit (n mod 10)])"

declare index_key.simps [simp del]

text \<open>
  \<^verbatim>\<open>v[i]\<close> for a literal index: an array's element, a string's character, an object's
  property of that key; \<^verbatim>\<open>undefined\<close> when there is none; a \<^verbatim>\<open>TypeError\<close> on \<^verbatim>\<open>null\<close> and
  \<^verbatim>\<open>undefined\<close>.
\<close>

fun getindex :: "jsv \<Rightarrow> nat \<Rightarrow> js_error + jsv" where
  "getindex JUndef i = Inl TypeError"
| "getindex JNull i = Inl TypeError"
| "getindex (JArr xs) i = Inr (if i < length xs then xs ! i else JUndef)"
| "getindex (JStr s) i = Inr (if i < length s then JStr [s ! i] else JUndef)"
| "getindex (JObj kvs) i = Inr (case map_of kvs (index_key i) of None \<Rightarrow> JUndef | Some v \<Rightarrow> v)"
| "getindex v i = Inr JUndef"

text \<open>
  The values an array destructuring pattern iterates over: the elements of an array, the
  characters of a string; anything else is not iterable.
\<close>

fun iterate :: "jsv \<Rightarrow> js_error + jsv list" where
  "iterate (JArr xs) = Inr xs"
| "iterate (JStr s) = Inr (map (\<lambda>c. JStr [c]) s)"
| "iterate v = Inl TypeError"

text \<open>The \<open>i\<close>-th variable of an array destructuring pattern: \<^verbatim>\<open>undefined\<close> past the end.\<close>

definition element :: "jsv list \<Rightarrow> nat \<Rightarrow> jsv" where
  "element xs i = (if i < length xs then xs ! i else JUndef)"

section \<open>Numbers: rounding a cost to two decimals\<close>

text \<open>\<open>ilog2 n\<close> is the position of the highest set bit of \<open>n\<close>: \<open>\<lfloor>log\<^sub>2 n\<rfloor>\<close> for \<open>n > 0\<close>.\<close>

fun ilog2 :: "nat \<Rightarrow> nat" where
  "ilog2 n = (if n < 2 then 0 else Suc (ilog2 (n div 2)))"

declare ilog2.simps [simp del]

text \<open>\<open>binade q\<close> is \<open>\<lfloor>log\<^sub>2 |q|\<rfloor>\<close> for a rational \<open>q \<noteq> 0\<close>: \<open>2\<^sup>e \<le> |q| < 2\<^sup>e\<^sup>+\<^sup>1\<close>.\<close>

definition binade :: "rat \<Rightarrow> int" where
  "binade q =
     (if 1 \<le> \<bar>q\<bar> then int (ilog2 (nat \<lfloor>\<bar>q\<bar>\<rfloor>))
      else let n = nat \<lceil>1 / \<bar>q\<bar>\<rceil> in - int (if n \<le> 1 then 0 else Suc (ilog2 (n - 1))))"

definition pow2 :: "int \<Rightarrow> rat" where
  "pow2 k = (if 0 \<le> k then 2 ^ nat k else 1 / 2 ^ nat (- k))"

definition round_half_even :: "rat \<Rightarrow> int" where
  "round_half_even x =
     (let f = \<lfloor>x\<rfloor>; d = x - of_int f
      in if d < 1 / 2 then f else if 1 / 2 < d then f + 1 else if even f then f else f + 1)"

text \<open>
  The binary64 number nearest to a rational, ties to the even significand: what reading a
  decimal literal yields (\<^verbatim>\<open>parseFloat\<close>, \<^verbatim>\<open>JSON.parse\<close>). The significand has 53 bits; below
  \<open>2\<^sup>-\<^sup>1\<^sup>0\<^sup>2\<^sup>2\<close> the spacing stays that of the smallest binade. Arguments here are below
  \<open>2\<^sup>1\<^sup>0\<^sup>2\<^sup>4\<close> in magnitude, so the result is finite.
\<close>

definition rnd64 :: "rat \<Rightarrow> rat" where
  "rnd64 q =
     (if q = 0 then 0
      else let e = max (binade q) (- 1022); ulp = pow2 (e - 52)
           in of_int (round_half_even (q / ulp)) * ulp)"

text \<open>
  The decimal number that the string \<^verbatim>\<open>x.toFixed(2)\<close> spells, for \<open>|x| < 10\<^sup>2\<^sup>1\<close>: the sign of
  \<open>x\<close> and the integer \<open>n\<close> for which \<open>n / 100 - |x|\<close> is as close to zero as possible, the
  larger \<open>n\<close> when there are two.
\<close>

definition toFixed2 :: "rat \<Rightarrow> rat" where
  "toFixed2 x = sgn x * of_int \<lfloor>\<bar>x\<bar> * 100 + 1 / 2\<rfloor> / 100"

text \<open>
  \<^verbatim>\<open>parseFloat(cost.toFixed(2))\<close> on a number. From \<open>10\<^sup>2\<^sup>1\<close> on, \<^verbatim>\<open>toFixed\<close> spells the number
  as \<^verbatim>\<open>String\<close> does, and \<^verbatim>\<open>parseFloat\<close> reads that back as the same number.
\<close>

definition parseFloat_toFixed2 :: "rat \<Rightarrow> rat" where
  "parseFloat_toFixed2 x = (if 10 ^ 21 \<le> \<bar>x\<bar> then x else rnd64 (toFixed2 x))"

section \<open>Effects: upstream calls, exceptions, the error log\<close>

text \<open>
  The requests the server sends upstream, with the values that determine them: the access
  token and, per subscription, the subscription id and the date range.
\<close>

datatype call =
    TokenRequest
  | SubscriptionsRequest jsv
  | CostQuery jsv jsv jsv jsv
  | ResourceQuery jsv jsv jsv jsv
  | PlansRequest jsv jsv

text \<open>
  How an \<^verbatim>\<open>axios\<close> call settles: the promise rejects (no answer, or a status outside 2xx), or it
  resolves and \<^verbatim>\<open>response.data\<close> is the answer's body. The upstream is any function from the
  request sent to how it settles.
\<close>

datatype upstream = HttpFail | HttpOk jsv

type_synonym world = "call \<Rightarrow> upstream"

text \<open>
  What a handler does that is visible outside it: a request sent upstream, or the line that
  \<^verbatim>\<open>/api/costs\<close> writes to the error log for a subscription whose query failed. (The other
  console output is not modelled.)
\<close>

datatype event = Sent call | LoggedFailure jsv

text \<open>A computation: the events it caused, in order, and its value or the exception thrown.\<close>

type_synonym 'a io = "event list \<times> (js_error + 'a)"

definition ret :: "'a \<Rightarrow> 'a io" where
  "ret x = ([], Inr x)"

definition throw :: "js_error \<Rightarrow> 'a io" where
  "throw e = ([], Inl e)"

definition lift :: "js_error + 'a \<Rightarrow> 'a io" where
  "lift r = ([], r)"

definition bind :: "'a io \<Rightarrow> ('a \<Rightarrow> 'b io) \<Rightarrow> 'b io" where
  "bind m f =
     (case m of
        (l, Inl e) \<Rightarrow> (l, Inl e)
      | (l, Inr x) \<Rightarrow> (case f x of (l', r) \<Rightarrow> (l @ l', r)))"

text \<open>\<^verbatim>\<open>await axios...\<close>: the request is sent; a rejection is an exception.\<close>

definition request :: "world \<Rightarrow> call \<Rightarrow> jsv io" where
  "request w c =
     ([Sent c], case w c of HttpFail \<Rightarrow> Inl (Failed ''request failed'') | HttpOk d \<Rightarrow> Inr d)"

text \<open>\<^verbatim>\<open>try { ... } catch (error) { throw new Error(msg) }\<close>\<close>

definition rethrow :: "string \<Rightarrow> 'a io \<Rightarrow> 'a io" where
  "rethrow msg m = (case m of (l, Inl e) \<Rightarrow> (l, Inl (Failed msg)) | (l, Inr x) \<Rightarrow> (l, Inr x))"

text \<open>\<^verbatim>\<open>xs.forEach(x => ...)\<close> where the callback updates an array it appends to.\<close>

fun forEach :: "('a \<Rightarrow> 's \<Rightarrow> 's io) \<Rightarrow> 'a list \<Rightarrow> 's \<Rightarrow> 's io" where
  "forEach f [] s = ret s"
| "forEach f (x # xs) s = bind (f x s) (forEach f xs)"

text \<open>
  \<^verbatim>\<open>await Promise.all(xs.map(x => ...))\<close>: every promise is started, in order, so every
  request is sent; the values are collected in order, and one rejection rejects the whole.
  (Which rejection is reported when there are several depends on timing; no caller here
  looks at it, and the first in list order stands for it.)
\<close>

fun promise_all :: "'a io list \<Rightarrow> 'a list io" where
  "promise_all [] = ([], Inr [])"
| "promise_all (m # ms) =
     (case m of (l, r) \<Rightarrow>
        (case promise_all ms of (ls, rs) \<Rightarrow>
           (l @ ls,
            case r of
              Inl e \<Rightarrow> Inl e
            | Inr x \<Rightarrow> (case rs of Inl e' \<Rightarrow> Inl e' | Inr xs \<Rightarrow> Inr (x # xs)))))"

section \<open>The collaborators\<close>

record subscription =
  subscriptionId :: jsv
  displayName :: jsv

text \<open>\<^verbatim>\<open>getAccessToken\<close> (lines 31-53).\<close>

definition getAccessToken :: "world \<Rightarrow> jsv io" where
  "getAccessToken w =
     rethrow ''Failed to fetch access token''
       (bind (request w TokenRequest) (\<lambda>data. lift (getprop data ''access_token'')))"

text \<open>
  \<^verbatim>\<open>getSubscriptions\<close> (lines 56-76): \<^verbatim>\<open>response.data.value.map(sub => ...)\<close>. Only an array has
  \<^verbatim>\<open>map\<close>.
\<close>

definition subscription_of :: "jsv \<Rightarrow> js_error + subscription" where
  "subscription_of sub =
     (case getprop sub ''subscriptionId'' of
        Inl e \<Rightarrow> Inl e
      | Inr i \<Rightarrow>
          (case getprop sub ''displayName'' of
             Inl e \<Rightarrow> Inl e
           | Inr n \<Rightarrow> Inr \<lparr>subscriptionId = i, displayName = n\<rparr>))"

fun map_array :: "('a \<Rightarrow> js_error + 'b) \<Rightarrow> 'a list \<Rightarrow> js_error + 'b list" where
  "map_array f [] = Inr []"
| "map_array f (x # xs) =
     (case f x of
        Inl e \<Rightarrow> Inl e
      | Inr y \<Rightarrow> (case map_array f xs of Inl e \<Rightarrow> Inl e | Inr ys \<Rightarrow> Inr (y # ys)))"

definition getSubscriptions :: "world \<Rightarrow> jsv \<Rightarrow> subscription list io" where
  "getSubscriptions w accessToken =
     rethrow ''Failed to fetch subscriptions''
       (bind (request w (SubscriptionsRequest accessToken)) (\<lambda>data.
          lift (case getprop data ''value'' of
                  Inl e \<Rightarrow> Inl e
                | Inr (JArr subs) \<Rightarrow> map_array subscription_of subs
                | Inr v \<Rightarrow> Inl TypeError)))"

text \<open>
  \<^verbatim>\<open>fetchCostData\<close> (lines 79-128). Inside its \<^verbatim>\<open>try\<close>, line 122 reads
  \<^verbatim>\<open>response.data.properties?.rows?.length\<close>, which throws when the body is \<^verbatim>\<open>null\<close> or
  \<^verbatim>\<open>undefined\<close>; every exception is rethrown as the function's own error.
\<close>

definition fetchCostData :: "world \<Rightarrow> jsv \<Rightarrow> jsv \<Rightarrow> jsv \<Rightarrow> jsv \<Rightarrow> jsv io" where
  "fetchCostData w accessToken subId startDate endDate =
     rethrow ''Failed to fetch cost data''
       (bind (request w (CostQuery accessToken subId startDate endDate)) (\<lambda>data.
          if nullish data then throw TypeError else ret data))"

section \<open>The replies\<close>

text \<open>
  \<^verbatim>\<open>res.json(body)\<close> answers with status 200; \<^verbatim>\<open>res.status(n).json({ error: msg })\<close> with
  status \<open>n\<close> and the message.
\<close>

datatype 'a reply = Reply200 'a | ReplyError nat string

text \<open>\<^verbatim>\<open>.then(data => ({ subscription: sub, data }))\<close>\<close>

definition with_subscription :: "subscription \<Rightarrow> 'a io \<Rightarrow> (subscription \<times> 'a) io" where
  "with_subscription sub m = bind m (\<lambda>data. ret (sub, data))"

text \<open>
  \<^verbatim>\<open>.then(data => ({ subscription: sub, data })).catch(error => ({ subscription: sub, error }))\<close>:
  the promise always resolves, to one of two shapes of object.
\<close>

definition settled :: "subscription \<Rightarrow> 'a io \<Rightarrow> (subscription \<times> (js_error + 'a)) io" where
  "settled sub m = (case m of (l, r) \<Rightarrow> (l, Inr (sub, r)))"

text \<open>The handler's outer \<^verbatim>\<open>try { ... } catch (error) { res.status(500).json(...) }\<close>.\<close>

definition respond :: "string \<Rightarrow> 'a reply io \<Rightarrow> event list \<times> 'a reply" where
  "respond msg m =
     (case m of (l, Inl e) \<Rightarrow> (l, ReplyError 500 msg) | (l, Inr r) \<Rightarrow> (l, r))"

section \<open>\<^verbatim>\<open>POST /api/costs\<close> (lines 131-194)\<close>

record costs_body =
  body_rows :: "jsv list list"
  body_columns :: "(string \<times> string) list"
  body_subscriptions :: "subscription list"

definition cost_columns :: "(string \<times> string) list" where
  "cost_columns =
     [(''Cost'', ''Number''), (''MeterCategory'', ''String''), (''MeterSubCategory'', ''String''),
      (''SubscriptionId'', ''String''), (''ResourceGroup'', ''String''),
      (''SubscriptionName'', ''String'')]"

text \<open>The callback of \<^verbatim>\<open>rows.forEach\<close> (lines 158-168).\<close>

definition cost_row :: "subscription \<Rightarrow> jsv \<Rightarrow> jsv list list \<Rightarrow> jsv list list io" where
  "cost_row sub row aggregatedRows =
     bind (lift (iterate row)) (\<lambda>cells.
       let cost = element cells 0;
           meterCategory = element cells 1;
           meterSubCategory = element cells 2;
           resourceGroup = element cells 4
       in ret (aggregatedRows @
                [[cost, meterCategory, meterSubCategory, subscriptionId sub,
                  (if truthy resourceGroup then resourceGroup else JStr ''Unknown''),
                  displayName sub]]))"

text \<open>The callback of \<^verbatim>\<open>results.forEach\<close> (lines 150-169). Only an array has \<^verbatim>\<open>forEach\<close>.\<close>

definition cost_result ::
  "subscription \<times> (js_error + jsv) \<Rightarrow> jsv list list \<Rightarrow> jsv list list io" where
  "cost_result result aggregatedRows =
     (case result of
        (sub, Inl error) \<Rightarrow> ([LoggedFailure (subscriptionId sub)], Inr aggregatedRows)
      | (sub, Inr data) \<Rightarrow>
          (let r = optprop (optprop data ''properties'') ''rows'';
               rows = (if truthy r then r else JArr [])
           in case rows of
                JArr rs \<Rightarrow> forEach (cost_row sub) rs aggregatedRows
              | _ \<Rightarrow> throw TypeError))"

text \<open>
  The body of the handler's \<^verbatim>\<open>try\<close>. Line 138 and the requests' addresses and headers spell
  the dates, the subscription id and the token into text; that spelling is not modelled (a
  date, an id and a token are strings).
\<close>

definition costs_attempt :: "world \<Rightarrow> jsv \<Rightarrow> costs_body reply io" where
  "costs_attempt w body =
     bind (lift (getprop body ''startDate'')) (\<lambda>startDate.
     bind (lift (getprop body ''endDate'')) (\<lambda>endDate.
       if \<not> truthy startDate \<or> \<not> truthy endDate
       then ret (ReplyError 400 ''Missing required parameters'')
       else
         bind (getAccessToken w) (\<lambda>accessToken.
         bind (getSubscriptions w accessToken) (\<lambda>subscriptions.
         bind (promise_all
                 (map (\<lambda>sub. settled sub
                         (fetchCostData w accessToken (subscriptionId sub) startDate endDate))
                    subscriptions)) (\<lambda>results.
         bind (forEach cost_result results []) (\<lambda>aggregatedRows.
           ret (Reply200 \<lparr>body_rows = aggregatedRows, body_columns = cost_columns,
                           body_subscriptions = subscriptions\<rparr>)))))))"

definition costs_handler :: "world \<Rightarrow> jsv \<Rightarrow> event list \<times> costs_body reply" where
  "costs_handler w body = respond ''Failed to fetch cost data'' (costs_attempt w body)"

section \<open>\<^verbatim>\<open>POST /api/top-resources\<close> (lines 197-292)\<close>

text \<open>\<^verbatim>\<open>fetchTopResources\<close> (lines 197-244), of the same shape as \<^verbatim>\<open>fetchCostData\<close>.\<close>

definition fetchTopResources :: "world \<Rightarrow> jsv \<Rightarrow> jsv \<Rightarrow> jsv \<Rightarrow> jsv \<Rightarrow> jsv io" where
  "fetchTopResources w accessToken subId startDate endDate =
     rethrow ''Failed to fetch top resources''
       (bind (request w (ResourceQuery accessToken subId startDate endDate)) (\<lambda>data.
          if nullish data then throw TypeError else ret data))"

record top_resource =
  tr_subscriptionId :: jsv
  tr_subscriptionName :: jsv
  tr_resourceName :: jsv
  tr_resourceId :: jsv
  tr_meterSubCategory :: jsv
  tr_cost :: rat

text \<open>\<^verbatim>\<open>s.split(c)\<close> for a one-character separator: the empty string splits into one segment.\<close>

fun split_on :: "char \<Rightarrow> string \<Rightarrow> string list" where
  "split_on c [] = [[]]"
| "split_on c (x # xs) =
     (if x = c then [] # split_on c xs
      else (x # hd (split_on c xs)) # tl (split_on c xs))"

text \<open>\<^verbatim>\<open>segments.pop()\<close>: the last element, \<^verbatim>\<open>undefined\<close> on an empty array.\<close>

definition pop :: "string list \<Rightarrow> jsv" where
  "pop segments = (if segments = [] then JUndef else JStr (last segments))"

text \<open>
  \<^verbatim>\<open>resourceId ? resourceId.split('/').pop() : 'Unknown'\<close> (line 271). Only a string has
  \<^verbatim>\<open>split\<close>.
\<close>

definition resourceName_of :: "jsv \<Rightarrow> js_error + jsv" where
  "resourceName_of resourceId =
     (if truthy resourceId
      then (case resourceId of JStr s \<Rightarrow> Inr (pop (split_on CHR ''/'' s)) | _ \<Rightarrow> Inl TypeError)
      else Inr (JStr ''Unknown''))"

text \<open>\<^verbatim>\<open>parseFloat(cost.toFixed(2))\<close> (line 278). Only a number has \<^verbatim>\<open>toFixed\<close>.\<close>

definition rounded_cost :: "jsv \<Rightarrow> js_error + rat" where
  "rounded_cost cost = (case cost of JNum q \<Rightarrow> Inr (parseFloat_toFixed2 q) | _ \<Rightarrow> Inl TypeError)"

text \<open>The callback of \<^verbatim>\<open>rows.forEach\<close> (lines 267-280).\<close>

definition top_row :: "subscription \<Rightarrow> jsv \<Rightarrow> top_resource list \<Rightarrow> top_resource list io" where
  "top_row sub row topResources =
     bind (lift (getindex row 0)) (\<lambda>cost.
     bind (lift (getindex row 1)) (\<lambda>resourceId.
     bind (lift (getindex row 2)) (\<lambda>meterSubCategory.
     bind (lift (resourceName_of resourceId)) (\<lambda>resourceName.
     bind (lift (rounded_cost cost)) (\<lambda>c.
       ret (topResources @
             [\<lparr>tr_subscriptionId = subscriptionId sub, tr_subscriptionName = displayName sub,
               tr_resourceName = resourceName, tr_resourceId = resourceId,
               tr_meterSubCategory = meterSubCategory, tr_cost = c\<rparr>]))))))"

text \<open>The callback of \<^verbatim>\<open>results.forEach\<close> (lines 265-282).\<close>

definition top_result :: "subscription \<times> jsv \<Rightarrow> top_resource list \<Rightarrow> top_resource list io" where
  "top_result result topResources =
     (case result of (sub, data) \<Rightarrow>
        (let rows = optprop (optprop data ''properties'') ''rows''
         in if truthy rows
            then (case rows of
                    JArr rs \<Rightarrow> forEach (top_row sub) rs topResources
                  | _ \<Rightarrow> throw TypeError)
            else ret topResources))"

text \<open>
  \<^verbatim>\<open>topResources.sort((a, b) => b.cost - a.cost).slice(0, 10)\<close> (line 284). The comparator
  orders by cost, larger first; \<^verbatim>\<open>Array.prototype.sort\<close> is stable, which fixes the result.
\<close>

definition sort_top :: "top_resource list \<Rightarrow> top_resource list" where
  "sort_top topResources = take 10 (sort_key (\<lambda>r. - tr_cost r) topResources)"

definition top_attempt :: "world \<Rightarrow> jsv \<Rightarrow> top_resource list reply io" where
  "top_attempt w body =
     bind (lift (getprop body ''startDate'')) (\<lambda>startDate.
     bind (lift (getprop body ''endDate'')) (\<lambda>endDate.
       if \<not> truthy startDate \<or> \<not> truthy endDate
       then ret (ReplyError 400 ''Missing required parameters'')
       else
         bind (getAccessToken w) (\<lambda>accessToken.
         bind (getSubscriptions w accessToken) (\<lambda>subscriptions.
         bind (promise_all
                 (map (\<lambda>sub. with_subscription sub
                         (fetchTopResources w accessToken (subscriptionId sub) startDate endDate))
                    subscriptions)) (\<lambda>results.
         bind (forEach top_result results []) (\<lambda>topResources.
           ret (Reply200 (sort_top topResources))))))))"

definition top_handler :: "world \<Rightarrow> jsv \<Rightarrow> event list \<times> top_resource list reply" where
  "top_handler w body = respond ''Failed to fetch top resources'' (top_attempt w body)"

section \<open>\<^verbatim>\<open>GET /api/plans\<close> (lines 295-348)\<close>

text \<open>
  \<^verbatim>\<open>fetchDefenderPlans\<close> (lines 295-311). Inside its \<^verbatim>\<open>try\<close>, line 305 reads
  \<^verbatim>\<open>response.data.value.length\<close>, which throws when the body, or its \<^verbatim>\<open>value\<close>, is \<^verbatim>\<open>null\<close> or
  \<^verbatim>\<open>undefined\<close>; the \<^verbatim>\<open>catch\<close> returns \<^verbatim>\<open>null\<close>.
\<close>

definition fetchDefenderPlans :: "world \<Rightarrow> jsv \<Rightarrow> jsv \<Rightarrow> jsv io" where
  "fetchDefenderPlans w accessToken subId =
     (case bind (request w (PlansRequest accessToken subId)) (\<lambda>data.
             bind (lift (getprop data ''value'')) (\<lambda>v.
               if nullish v then throw TypeError else ret data)) of
        (l, Inl e) \<Rightarrow> (l, Inr JNull)
      | (l, Inr data) \<Rightarrow> (l, Inr data))"

record defender_plan =
  pl_subscriptionId :: jsv
  pl_subscriptionName :: jsv
  pl_planName :: jsv
  pl_pricingTier :: jsv

text \<open>The callback of \<^verbatim>\<open>result.data.value.forEach\<close> (lines 329-338).\<close>

definition plan_record ::
  "subscription \<Rightarrow> jsv \<Rightarrow> defender_plan list \<Rightarrow> defender_plan list io" where
  "plan_record sub plan plansData =
     bind (lift (getprop plan ''properties'')) (\<lambda>properties.
       if truthy (optprop properties ''pricingTier'')
       then
         bind (lift (getprop plan ''name'')) (\<lambda>name.
         bind (lift (getprop properties ''pricingTier'')) (\<lambda>pricingTier.
           ret (plansData @
                 [\<lparr>pl_subscriptionId = subscriptionId sub, pl_subscriptionName = displayName sub,
                   pl_planName = name, pl_pricingTier = pricingTier\<rparr>])))
       else ret plansData)"

text \<open>The callback of \<^verbatim>\<open>results.forEach\<close> (lines 327-340).\<close>

definition plan_result ::
  "subscription \<times> jsv \<Rightarrow> defender_plan list \<Rightarrow> defender_plan list io" where
  "plan_result result plansData =
     (case result of (sub, data) \<Rightarrow>
        (let v = optprop data ''value''
         in if truthy v
            then (case v of
                    JArr plans \<Rightarrow> forEach (plan_record sub) plans plansData
                  | _ \<Rightarrow> throw TypeError)
            else ret plansData))"

definition plans_attempt :: "world \<Rightarrow> defender_plan list reply io" where
  "plans_attempt w =
     bind (getAccessToken w) (\<lambda>accessToken.
     bind (getSubscriptions w accessToken) (\<lambda>subscriptions.
     bind (promise_all
             (map (\<lambda>sub. with_subscription sub
                     (fetchDefenderPlans w accessToken (subscriptionId sub)))
                subscriptions)) (\<lambda>results.
     bind (forEach plan_result results []) (\<lambda>plansData.
       ret (Reply200 plansData)))))"

definition plans_handler :: "world \<Rightarrow> event list \<times> defender_plan list reply" where
  "plans_handler w = respond ''Failed to fetch Defender plans'' (plans_attempt w)"

section \<open>The vocabulary of the properties\<close>

text \<open>
  The rows of a query's answer: \<^verbatim>\<open>properties.rows\<close> when that is an array, no rows otherwise.
\<close>

definition payload_rows :: "jsv \<Rightarrow> jsv list" where
  "payload_rows data =
     (case optprop (optprop data ''properties'') ''rows'' of JArr rs \<Rightarrow> rs | _ \<Rightarrow> [])"

text \<open>A raw row that an array pattern can destructure, and its cells.\<close>

definition iterable :: "jsv \<Rightarrow> bool" where
  "iterable row = (case iterate row of Inl e \<Rightarrow> False | Inr cells \<Rightarrow> True)"

definition row_cells :: "jsv \<Rightarrow> jsv list" where
  "row_cells row = (case iterate row of Inl e \<Rightarrow> [] | Inr cells \<Rightarrow> cells)"

text \<open>
  A tabular answer to a cost query: \<^verbatim>\<open>properties.rows\<close> is an array of rows that can be
  destructured, or it is absent (or otherwise falsy).
\<close>

definition cost_table :: "jsv \<Rightarrow> bool" where
  "cost_table data =
     (case optprop (optprop data ''properties'') ''rows'' of
        JArr rs \<Rightarrow> list_all iterable rs
      | r \<Rightarrow> \<not> truthy r)"

text \<open>
  The output row of a raw row, in the spec's words: cost, meter category and meter
  subcategory are kept, the fourth raw column is dropped, the owning subscription's id and
  name are joined in, and a missing resource group reads \<^verbatim>\<open>Unknown\<close>.
\<close>

definition flat_row :: "subscription \<Rightarrow> jsv list \<Rightarrow> jsv list" where
  "flat_row sub cells =
     [element cells 0, element cells 1, element cells 2, subscriptionId sub,
      (if truthy (element cells 4) then element cells 4 else JStr ''Unknown''),
      displayName sub]"

text \<open>What one subscription contributes to the merged rows, given how its query settled.\<close>

definition cost_contribution :: "subscription \<Rightarrow> js_error + jsv \<Rightarrow> jsv list list" where
  "cost_contribution sub outcome =
     (case outcome of
        Inl e \<Rightarrow> []
      | Inr data \<Rightarrow> map (\<lambda>row. flat_row sub (row_cells row)) (payload_rows data))"

text \<open>The \<open>i\<close>-th cell of a raw row that is an array.\<close>

definition cell :: "jsv \<Rightarrow> nat \<Rightarrow> jsv" where
  "cell row i = (case row of JArr cells \<Rightarrow> element cells i | _ \<Rightarrow> JUndef)"

text \<open>
  A raw row of a resource query that the handler can turn into an entry: an array whose
  first cell is a number and whose second cell is a string or falsy.
\<close>

definition resource_row :: "jsv \<Rightarrow> bool" where
  "resource_row row =
     (case row of
        JArr cells \<Rightarrow>
          (case element cells 0 of
             JNum q \<Rightarrow> (case element cells 1 of JStr s \<Rightarrow> True | rid \<Rightarrow> \<not> truthy rid)
           | _ \<Rightarrow> False)
      | _ \<Rightarrow> False)"

definition resource_table :: "jsv \<Rightarrow> bool" where
  "resource_table data =
     (case optprop (optprop data ''properties'') ''rows'' of
        JArr rs \<Rightarrow> list_all resource_row rs
      | r \<Rightarrow> \<not> truthy r)"

text \<open>
  The entry of a raw row, in the spec's words: the resource name is the last path segment
  of the resource id, \<^verbatim>\<open>Unknown\<close> when there is no resource id; the cost is rounded to two
  decimals.
\<close>

definition top_entry :: "subscription \<Rightarrow> jsv \<Rightarrow> top_resource" where
  "top_entry sub row =
     \<lparr>tr_subscriptionId = subscriptionId sub, tr_subscriptionName = displayName sub,
      tr_resourceName =
        (case cell row 1 of
           JStr s \<Rightarrow> if s = [] then JStr ''Unknown'' else JStr (last (split_on CHR ''/'' s))
         | _ \<Rightarrow> JStr ''Unknown''),
      tr_resourceId = cell row 1,
      tr_meterSubCategory = cell row 2,
      tr_cost = (case cell row 0 of JNum q \<Rightarrow> parseFloat_toFixed2 q | _ \<Rightarrow> 0)\<rparr>"

definition top_contribution :: "subscription \<Rightarrow> jsv \<Rightarrow> top_resource list" where
  "top_contribution sub data = map (top_entry sub) (payload_rows data)"

text \<open>
  The plan records of an answer to a plans query: \<^verbatim>\<open>value\<close> when it is an array. A listing
  is well-formed when \<^verbatim>\<open>value\<close> is an array of records (none of them \<^verbatim>\<open>null\<close>), or absent.
\<close>

definition payload_plans :: "jsv \<Rightarrow> jsv list" where
  "payload_plans data = (case optprop data ''value'' of JArr plans \<Rightarrow> plans | _ \<Rightarrow> [])"

definition plan_table :: "jsv \<Rightarrow> bool" where
  "plan_table data =
     (case optprop data ''value'' of
        JArr plans \<Rightarrow> list_all (\<lambda>plan. \<not> nullish plan) plans
      | v \<Rightarrow> \<not> truthy v)"

text \<open>A plan record has a pricing tier set.\<close>

definition has_tier :: "jsv \<Rightarrow> bool" where
  "has_tier plan = truthy (optprop (optprop plan ''properties'') ''pricingTier'')"

definition plan_entry :: "subscription \<Rightarrow> jsv \<Rightarrow> defender_plan" where
  "plan_entry sub plan =
     \<lparr>pl_subscriptionId = subscriptionId sub, pl_subscriptionName = displayName sub,
      pl_planName = optprop plan ''name'',
      pl_pricingTier = optprop (optprop plan ''properties'') ''pricingTier''\<rparr>"

definition plan_contribution :: "subscription \<Rightarrow> jsv \<Rightarrow> defender_plan list" where
  "plan_contribution sub data = map (plan_entry sub) (filter has_tier (payload_plans data))"

text \<open>
  An answer that lacks the rows container (\<^verbatim>\<open>properties\<close> or \<^verbatim>\<open>properties.rows\<close> is absent or
  \<^verbatim>\<open>null\<close>), and a plans answer that lacks \<^verbatim>\<open>value\<close>.
\<close>

definition lacks_rows :: "jsv \<Rightarrow> bool" where
  "lacks_rows data = nullish (optprop (optprop data ''properties'') ''rows'')"

definition lacks_value :: "jsv \<Rightarrow> bool" where
  "lacks_value data = nullish (optprop data ''value'')"

section \<open>A sample deployment\<close>

text \<open>
  Two subscriptions. The first answers every query with data; how the second answers the
  cost query, the resource query and the plans query is left open.
\<close>

definition demo_body :: jsv where
  "demo_body = JObj [(''startDate'', JStr ''2024-01-01''), (''endDate'', JStr ''2024-01-31'')]"

definition demo_costs :: jsv where
  "demo_costs =
     JObj [(''properties'', JObj [(''rows'', JArr
       [JArr [JNum (5 / 2), JStr ''Microsoft Defender for Cloud'', JStr ''Servers'',
              JStr ''sub-1'', JStr ''rg-app''],
        JArr [JNum 7, JStr ''Microsoft Defender for Cloud'', JStr ''Storage'',
              JStr ''sub-1'', JNull]])])]"

text \<open>
  The second resource row costs the binary64 number nearest to 12.345, which is
  \<open>6949617174986097 / 2\<^sup>4\<^sup>9\<close>.
\<close>

definition demo_resources :: jsv where
  "demo_resources =
     JObj [(''properties'', JObj [(''rows'', JArr
       [JArr [JNum (1 / 4), JNull, JStr ''Storage''],
        JArr [JNum (6949617174986097 / 562949953421312),
              JStr ''/sub/rg/providers/Foo/bar/myResource'', JStr ''Servers'']])])]"

definition demo_plans :: jsv where
  "demo_plans =
     JObj [(''value'', JArr
       [JObj [(''name'', JStr ''VirtualMachines''),
              (''properties'', JObj [(''pricingTier'', JStr ''Standard'')])],
        JObj [(''name'', JStr ''StorageAccounts''), (''properties'', JObj [])]])]"

definition demo_world :: "upstream \<Rightarrow> upstream \<Rightarrow> upstream \<Rightarrow> world" where
  "demo_world costs2 resources2 plans2 c =
     (case c of
        TokenRequest \<Rightarrow> HttpOk (JObj [(''access_token'', JStr ''token'')])
      | SubscriptionsRequest t \<Rightarrow>
          HttpOk (JObj [(''value'', JArr
            [JObj [(''subscriptionId'', JStr ''sub-1''), (''displayName'', JStr ''Production'')],
             JObj [(''subscriptionId'', JStr ''sub-2''), (''displayName'', JStr ''Staging'')]])])
      | CostQuery t sid sd ed \<Rightarrow> (if sid = JStr ''sub-1'' then HttpOk demo_costs else costs2)
      | ResourceQuery t sid sd ed \<Rightarrow>
          (if sid = JStr ''sub-1'' then HttpOk demo_resources else resources2)
      | PlansRequest t sid \<Rightarrow> (if sid = JStr ''sub-1'' then HttpOk demo_plans else plans2))"

definition demo_subs :: "subscription list" where
  "demo_subs =
     [\<lparr>subscriptionId = JStr ''sub-1'', displayName = JStr ''Production''\<rparr>,
      \<lparr>subscriptionId = JStr ''sub-2'', displayName = JStr ''Staging''\<rparr>]"

text \<open>The entries that the first subscription's resource rows yield.\<close>

definition demo_entry :: top_resource where
  "demo_entry =
     \<lparr>tr_subscriptionId = JStr ''sub-1'', tr_subscriptionName = JStr ''Production'',
      tr_resourceName = JStr ''myResource'',
      tr_resourceId = JStr ''/sub/rg/providers/Foo/bar/myResource'',
      tr_meterSubCategory = JStr ''Servers'',
      tr_cost = 6952431924753203 / 562949953421312\<rparr>"

definition demo_entry_unnamed :: top_resource where
  "demo_entry_unnamed =
     \<lparr>tr_subscriptionId = JStr ''sub-1'', tr_subscriptionName = JStr ''Production'',
      tr_resourceName = JStr ''Unknown'', tr_resourceId = JNull,
      tr_meterSubCategory = JStr ''Storage'', tr_cost = 1 / 4\<rparr>"

text \<open>The plan that the first subscription's listing yields.\<close>

definition demo_plan :: defender_plan where
  "demo_plan =
     \<lparr>pl_subscriptionId = JStr ''sub-1'', pl_subscriptionName = JStr ''Production'',
      pl_planName = JStr ''VirtualMachines'', pl_pricingTier = JStr ''Standard''\<rparr>"

text \<open>Whether an event is a line of the error log.\<close>

definition is_logged :: "event \<Rightarrow> bool" where
  "is_logged ev = (case ev of LoggedFailure i \<Rightarrow> True | Sent c \<Rightarrow> False)"

section \<open>Computations step by step\<close>

lemma snd_bind: "snd (bind m f) = (case snd m of Inl e \<Rightarrow> Inl e | Inr x \<Rightarrow> snd (f x))"
  by (simp add: bind_def split: prod.splits sum.splits)

lemma fst_bind:
  "fst (bind m f) = (case snd m of Inl e \<Rightarrow> fst m | Inr x \<Rightarrow> fst m @ fst (f x))"
  by (simp add: bind_def split: prod.splits sum.splits)

lemma bind_lift_Inr [simp]: "bind (lift (Inr x)) f = f x"
  by (simp add: bind_def lift_def split: prod.splits)

lemma bind_lift_Inl [simp]: "bind (lift (Inl e)) f = ([], Inl e)"
  by (simp add: bind_def lift_def)

lemma bind_ret [simp]: "bind (ret x) f = f x"
  by (simp add: bind_def ret_def split: prod.splits)

lemma bind_throw [simp]: "bind (throw e) f = ([], Inl e)"
  by (simp add: bind_def throw_def)

lemma bind_Inr: "bind (l, Inr x) f = (l @ fst (f x), snd (f x))"
  by (simp add: bind_def split: prod.splits)

lemma bind_Inl: "bind (l, Inl e) f = (l, Inl e)"
  by (simp add: bind_def)

lemma bind_eq_InrD:
  "bind m f = (l, Inr y) \<Longrightarrow> \<exists>l1 x l2. m = (l1, Inr x) \<and> f x = (l2, Inr y) \<and> l = l1 @ l2"
  by (auto simp: bind_def split: prod.splits sum.splits)

lemma getprop_optprop: "\<not> nullish v \<Longrightarrow> getprop v k = Inr (optprop v k)"
  by (cases v) simp_all

lemma fst_getAccessToken: "fst (getAccessToken w) = [Sent TokenRequest]"
  by (simp add: getAccessToken_def rethrow_def bind_def request_def lift_def
      split: prod.splits sum.splits upstream.splits)

lemma fst_getSubscriptions: "fst (getSubscriptions w tok) = [Sent (SubscriptionsRequest tok)]"
  by (simp add: getSubscriptions_def rethrow_def bind_def request_def lift_def
      split: prod.splits sum.splits upstream.splits)

lemma fst_fetchCostData:
  "fst (fetchCostData w tok sid sd ed) = [Sent (CostQuery tok sid sd ed)]"
  by (simp add: fetchCostData_def rethrow_def bind_def request_def ret_def throw_def
      split: prod.splits sum.splits upstream.splits)

lemma fst_fetchTopResources:
  "fst (fetchTopResources w tok sid sd ed) = [Sent (ResourceQuery tok sid sd ed)]"
  by (simp add: fetchTopResources_def rethrow_def bind_def request_def ret_def throw_def
      split: prod.splits sum.splits upstream.splits)

lemma fst_fetchDefenderPlans:
  "fst (fetchDefenderPlans w tok sid) = [Sent (PlansRequest tok sid)]"
  by (simp add: fetchDefenderPlans_def bind_def request_def ret_def throw_def lift_def
      split: prod.splits sum.splits upstream.splits)

lemma promise_all_Cons:
  "promise_all (m # ms) =
     (fst m @ fst (promise_all ms),
      case snd m of
        Inl e \<Rightarrow> Inl e
      | Inr x \<Rightarrow> (case snd (promise_all ms) of Inl e' \<Rightarrow> Inl e' | Inr xs \<Rightarrow> Inr (x # xs)))"
  by (cases m; cases "promise_all ms") (simp split: sum.splits)

lemma promise_all_settled:
  "promise_all (map (\<lambda>sub. settled sub (m sub)) subs) =
     (concat (map (\<lambda>sub. fst (m sub)) subs), Inr (map (\<lambda>sub. (sub, snd (m sub))) subs))"
  by (induction subs) (simp_all add: settled_def split: prod.splits)

lemma fst_promise_all: "fst (promise_all ms) = concat (map fst ms)"
  by (induction ms) (simp_all add: promise_all_Cons del: promise_all.simps(2))

lemma snd_promise_all_ok:
  "\<forall>m\<in>set ms. \<exists>x. snd m = Inr x \<Longrightarrow>
   snd (promise_all ms) = Inr (map (\<lambda>m. case snd m of Inr x \<Rightarrow> x) ms)"
  by (induction ms) (auto simp: promise_all_Cons simp del: promise_all.simps(2))

lemma snd_promise_all_fail:
  "m \<in> set ms \<Longrightarrow> snd m = Inl e \<Longrightarrow> \<exists>e'. snd (promise_all ms) = Inl e'"
proof (induction ms)
  case Nil
  then show ?case by simp
next
  case (Cons a ms)
  show ?case
  proof (cases "snd a")
    case (Inl e0)
    then show ?thesis by (simp add: promise_all_Cons del: promise_all.simps(2))
  next
    case (Inr x)
    with Cons.prems have "m \<in> set ms" by auto
    from Cons.IH [OF this Cons.prems(2)] obtain e' where "snd (promise_all ms) = Inl e'" ..
    with Inr show ?thesis by (simp add: promise_all_Cons del: promise_all.simps(2))
  qed
qed

lemma forEach_invariant:
  assumes step: "\<And>x s l s'. x \<in> set xs \<Longrightarrow> f x s = (l, Inr s') \<Longrightarrow> I s \<Longrightarrow> I s'"
  shows "forEach f xs s = (l, Inr s') \<Longrightarrow> I s \<Longrightarrow> I s'"
  using step
proof (induction xs arbitrary: s l)
  case Nil
  then show ?case by (simp add: ret_def)
next
  case (Cons x xs)
  from Cons.prems(1) obtain l1 s1 l2 where
    a: "f x s = (l1, Inr s1)" and b: "forEach f xs s1 = (l2, Inr s')"
    by (auto dest!: bind_eq_InrD)
  have "I s1" using Cons.prems(3) [of x s l1 s1] a Cons.prems(2) by simp
  show ?case
    by (rule Cons.IH [OF b \<open>I s1\<close>]) (auto intro: Cons.prems(3))
qed

section \<open>The cost path\<close>

lemma cost_row_iterable:
  "iterable row \<Longrightarrow> cost_row sub row acc = ([], Inr (acc @ [flat_row sub (row_cells row)]))"
  by (auto simp: cost_row_def iterable_def row_cells_def flat_row_def ret_def Let_def
      split: sum.splits)

lemma cost_row_InrD:
  "cost_row sub row acc = (l, Inr acc') \<Longrightarrow>
   iterable row \<and> l = [] \<and> acc' = acc @ [flat_row sub (row_cells row)]"
  by (auto simp: cost_row_def iterable_def row_cells_def flat_row_def ret_def Let_def
      split: sum.splits)

lemma forEach_cost_row:
  "list_all iterable rs \<Longrightarrow>
   forEach (cost_row sub) rs acc = ([], Inr (acc @ map (\<lambda>row. flat_row sub (row_cells row)) rs))"
  by (induction rs arbitrary: acc) (simp_all add: ret_def cost_row_iterable bind_Inr)

lemma cost_result_failed:
  "cost_result (sub, Inl e) acc = ([LoggedFailure (subscriptionId sub)], Inr acc)"
  by (simp add: cost_result_def)

lemma cost_result_table:
  "cost_table data \<Longrightarrow>
   cost_result (sub, Inr data) acc = ([], Inr (acc @ cost_contribution sub (Inr data)))"
  by (auto simp: cost_result_def cost_table_def cost_contribution_def payload_rows_def Let_def
      forEach_cost_row ret_def split: jsv.splits)

lemma forEach_cost_result:
  "\<forall>res\<in>set results. \<forall>d. snd res = Inr d \<longrightarrow> cost_table d \<Longrightarrow>
   forEach cost_result results acc =
     (map (\<lambda>res. LoggedFailure (subscriptionId (fst res))) (filter (\<lambda>res. isl (snd res)) results),
      Inr (acc @ concat (map (\<lambda>res. cost_contribution (fst res) (snd res)) results)))"
proof (induction results arbitrary: acc)
  case Nil
  then show ?case by (simp add: ret_def)
next
  case (Cons res results)
  obtain sub r where res: "res = (sub, r)" by (cases res)
  have IH: "\<And>acc. forEach cost_result results acc =
     (map (\<lambda>res. LoggedFailure (subscriptionId (fst res))) (filter (\<lambda>res. isl (snd res)) results),
      Inr (acc @ concat (map (\<lambda>res. cost_contribution (fst res) (snd res)) results)))"
    using Cons.IH Cons.prems by simp
  show ?case
  proof (cases r)
    case (Inl e)
    then show ?thesis
      by (simp add: res cost_result_failed bind_Inr IH cost_contribution_def)
  next
    case (Inr d)
    with Cons.prems res have "cost_table d" by simp
    then show ?thesis
      by (simp add: res Inr cost_result_table bind_Inr IH)
  qed
qed

lemma costs_handler_tables:
  assumes sd: "getprop body ''startDate'' = Inr sd" and ed: "getprop body ''endDate'' = Inr ed"
    and dates: "truthy sd" "truthy ed"
    and tok: "snd (getAccessToken w) = Inr tok"
    and subs: "snd (getSubscriptions w tok) = Inr subs"
    and tables: "\<forall>sub\<in>set subs. \<forall>d.
        snd (fetchCostData w tok (subscriptionId sub) sd ed) = Inr d \<longrightarrow> cost_table d"
  shows "costs_handler w body =
     ([Sent TokenRequest, Sent (SubscriptionsRequest tok)] @
      map (\<lambda>sub. Sent (CostQuery tok (subscriptionId sub) sd ed)) subs @
      map (\<lambda>sub. LoggedFailure (subscriptionId sub))
        (filter (\<lambda>sub. isl (snd (fetchCostData w tok (subscriptionId sub) sd ed))) subs),
      Reply200 \<lparr>body_rows =
          concat (map (\<lambda>sub. cost_contribution sub
                    (snd (fetchCostData w tok (subscriptionId sub) sd ed))) subs),
        body_columns = cost_columns, body_subscriptions = subs\<rparr>)"
proof -
  have t: "getAccessToken w = ([Sent TokenRequest], Inr tok)"
    using tok fst_getAccessToken [of w] by (cases "getAccessToken w") simp
  have s: "getSubscriptions w tok = ([Sent (SubscriptionsRequest tok)], Inr subs)"
    using subs fst_getSubscriptions [of w tok] by (cases "getSubscriptions w tok") simp
  let ?results = "map (\<lambda>sub. (sub, snd (fetchCostData w tok (subscriptionId sub) sd ed))) subs"
  have r: "\<forall>res\<in>set ?results. \<forall>d. snd res = Inr d \<longrightarrow> cost_table d"
    using tables by auto
  show ?thesis
    unfolding costs_handler_def costs_attempt_def
    by (simp add: sd ed dates t s bind_Inr promise_all_settled forEach_cost_result [OF r]
        fst_fetchCostData respond_def ret_def filter_map o_def)
qed

section \<open>Queries that can reject the request\<close>

lemma snd_respond_200:
  "snd (respond msg m) = Reply200 x \<longleftrightarrow> snd m = Inr (Reply200 x)"
  by (simp add: respond_def split: prod.splits sum.splits)

lemma snd_with_subscription:
  "snd (with_subscription sub m) = (case snd m of Inl e \<Rightarrow> Inl e | Inr d \<Rightarrow> Inr (sub, d))"
  by (simp add: with_subscription_def snd_bind ret_def split: sum.splits)

lemma fst_with_subscription: "fst (with_subscription sub m) = fst m"
  by (simp add: with_subscription_def fst_bind ret_def split: sum.splits)

lemma promise_all_with_subscription_ok:
  assumes "\<forall>sub\<in>set subs. \<exists>d. snd (m sub) = Inr d"
  shows "snd (promise_all (map (\<lambda>sub. with_subscription sub (m sub)) subs)) =
    Inr (map (\<lambda>sub. (sub, projr (snd (m sub)))) subs)"
proof -
  have "\<forall>p\<in>set (map (\<lambda>sub. with_subscription sub (m sub)) subs). \<exists>x. snd p = Inr x"
    using assms by (auto simp: snd_with_subscription)
  from snd_promise_all_ok [OF this] show ?thesis
    using assms by (auto simp: o_def snd_with_subscription)
qed

lemma promise_all_with_subscription_fail:
  assumes "sub \<in> set subs" "snd (m sub) = Inl e"
  shows "\<exists>e'. snd (promise_all (map (\<lambda>sub. with_subscription sub (m sub)) subs)) = Inl e'"
proof -
  have "with_subscription sub (m sub) \<in> set (map (\<lambda>sub. with_subscription sub (m sub)) subs)"
    using assms(1) by simp
  moreover have "snd (with_subscription sub (m sub)) = Inl e"
    using assms(2) by (simp add: snd_with_subscription)
  ultimately show ?thesis by (rule snd_promise_all_fail)
qed

lemma promise_all_with_subscription_InrD:
  assumes "snd (promise_all (map (\<lambda>sub. with_subscription sub (m sub)) subs)) = Inr results"
  shows "(\<forall>sub\<in>set subs. \<exists>d. snd (m sub) = Inr d) \<and>
    results = map (\<lambda>sub. (sub, projr (snd (m sub)))) subs"
proof -
  have ok: "\<forall>sub\<in>set subs. \<exists>d. snd (m sub) = Inr d"
  proof (rule ccontr)
    assume "\<not> ?thesis"
    then obtain sub where "sub \<in> set subs" "\<forall>d. snd (m sub) \<noteq> Inr d" by auto
    then obtain e where "snd (m sub) = Inl e" by (cases "snd (m sub)") auto
    from promise_all_with_subscription_fail [of sub subs m e, OF \<open>sub \<in> set subs\<close> this] assms
    show False by auto
  qed
  with promise_all_with_subscription_ok [OF ok] assms show ?thesis by simp
qed

section \<open>The top-resources path\<close>

lemma top_row_InrD:
  assumes "top_row sub row acc = (l, Inr acc')"
  shows "\<exists>q rid msc name. getindex row 0 = Inr (JNum q) \<and> getindex row 1 = Inr rid \<and>
    getindex row 2 = Inr msc \<and> resourceName_of rid = Inr name \<and> l = [] \<and>
    acc' = acc @ [\<lparr>tr_subscriptionId = subscriptionId sub, tr_subscriptionName = displayName sub,
               tr_resourceName = name, tr_resourceId = rid,
               tr_meterSubCategory = msc, tr_cost = parseFloat_toFixed2 q\<rparr>]"
  using assms
  by (auto simp: top_row_def bind_def lift_def ret_def rounded_cost_def
      split: prod.splits sum.splits jsv.splits)

lemma top_row_acc:
  assumes "top_row sub row acc = (l, Inr acc')"
  shows "\<exists>r. acc' = acc @ [r] \<and> top_row sub row [] = ([], Inr [r]) \<and> l = []"
  using assms
  by (auto simp: top_row_def bind_def lift_def ret_def split: prod.splits sum.splits)

lemma top_result_InrD:
  assumes "top_result (sub, d) acc = (l, Inr acc')"
  shows "\<forall>r\<in>set acc'. r \<in> set acc \<or>
    (\<exists>raw\<in>set (payload_rows d). top_row sub raw [] = ([], Inr [r]))"
proof (cases "truthy (optprop (optprop d ''properties'') ''rows'')")
  case False
  with assms show ?thesis by (simp add: top_result_def ret_def)
next
  case True
  from assms True obtain rs where rs: "optprop (optprop d ''properties'') ''rows'' = JArr rs"
    by (cases "optprop (optprop d ''properties'') ''rows''")
      (simp_all add: top_result_def throw_def)
  with assms have run: "forEach (top_row sub) rs acc = (l, Inr acc')"
    by (simp add: top_result_def)
  have rows: "payload_rows d = rs" by (simp add: payload_rows_def rs)
  let ?I = "\<lambda>s. \<forall>r\<in>set s. r \<in> set acc \<or> (\<exists>raw\<in>set rs. top_row sub raw [] = ([], Inr [r]))"
  have "?I acc'"
  proof (rule forEach_invariant [where I = ?I, OF _ run])
    fix x s l' s'
    assume x: "x \<in> set rs" and step: "top_row sub x s = (l', Inr s')" and I: "?I s"
    from top_row_acc [OF step] obtain r0 where
      r0: "s' = s @ [r0]" "top_row sub x [] = ([], Inr [r0])" by blast
    show "?I s'"
    proof
      fix r assume "r \<in> set s'"
      with r0(1) have "r \<in> set s \<or> r = r0" by auto
      then show "r \<in> set acc \<or> (\<exists>raw\<in>set rs. top_row sub raw [] = ([], Inr [r]))"
        using I x r0(2) by blast
    qed
  qed simp
  then show ?thesis by (simp add: rows)
qed

lemma top_handler_200D:
  assumes "snd (top_handler w body) = Reply200 rs"
  shows "\<exists>sd ed tok subs xs.
    getprop body ''startDate'' = Inr sd \<and> getprop body ''endDate'' = Inr ed \<and>
    truthy sd \<and> truthy ed \<and>
    snd (getAccessToken w) = Inr tok \<and> snd (getSubscriptions w tok) = Inr subs \<and>
    (\<forall>sub\<in>set subs. \<exists>d. snd (fetchTopResources w tok (subscriptionId sub) sd ed) = Inr d) \<and>
    snd (forEach top_result
           (map (\<lambda>sub. (sub, projr (snd (fetchTopResources w tok (subscriptionId sub) sd ed))))
              subs) []) = Inr xs \<and>
    rs = sort_top xs"
proof -
  from assms have a: "snd (top_attempt w body) = Inr (Reply200 rs)"
    by (simp add: top_handler_def snd_respond_200)
  then obtain sd where sd: "getprop body ''startDate'' = Inr sd"
    by (cases "getprop body ''startDate''") (simp_all add: top_attempt_def)
  from a sd obtain ed where ed: "getprop body ''endDate'' = Inr ed"
    by (cases "getprop body ''endDate''") (simp_all add: top_attempt_def)
  from a have dates: "truthy sd" "truthy ed"
    by (auto simp: top_attempt_def sd ed ret_def split: if_splits)
  from a obtain tok where tok: "snd (getAccessToken w) = Inr tok"
    by (cases "snd (getAccessToken w)") (simp_all add: top_attempt_def sd ed dates snd_bind)
  from a obtain subs where subs: "snd (getSubscriptions w tok) = Inr subs"
    by (cases "snd (getSubscriptions w tok)")
      (simp_all add: top_attempt_def sd ed dates snd_bind tok)
  let ?m = "\<lambda>sub. fetchTopResources w tok (subscriptionId sub) sd ed"
  from a obtain results where
    res: "snd (promise_all (map (\<lambda>sub. with_subscription sub (?m sub)) subs)) = Inr results"
    by (cases "snd (promise_all (map (\<lambda>sub. with_subscription sub (?m sub)) subs))")
      (simp_all add: top_attempt_def sd ed dates snd_bind tok subs)
  note r = promise_all_with_subscription_InrD [OF res]
  from a obtain xs where xs: "snd (forEach top_result results []) = Inr xs"
    by (cases "snd (forEach top_result results [])")
      (simp_all add: top_attempt_def sd ed dates snd_bind tok subs res)
  from a have "rs = sort_top xs"
    by (simp add: top_attempt_def sd ed dates snd_bind tok subs res xs ret_def)
  with sd ed dates tok subs r xs show ?thesis by auto
qed

lemma forEach_top_result_provenance:
  assumes "snd (forEach top_result (map (\<lambda>sub. (sub, D sub)) subs) []) = Inr xs"
  shows "\<forall>r\<in>set xs. \<exists>sub\<in>set subs. \<exists>raw\<in>set (payload_rows (D sub)).
    top_row sub raw [] = ([], Inr [r])"
proof -
  let ?I = "\<lambda>s. \<forall>r\<in>set s. \<exists>sub\<in>set subs. \<exists>raw\<in>set (payload_rows (D sub)).
    top_row sub raw [] = ([], Inr [r])"
  obtain l where run: "forEach top_result (map (\<lambda>sub. (sub, D sub)) subs) [] = (l, Inr xs)"
    using assms by (cases "forEach top_result (map (\<lambda>sub. (sub, D sub)) subs) []") simp
  show "?I xs"
  proof (rule forEach_invariant [where I = ?I, OF _ run])
    fix x s l' s'
    assume x: "x \<in> set (map (\<lambda>sub. (sub, D sub)) subs)"
      and step: "top_result x s = (l', Inr s')" and I: "?I s"
    from x obtain sub where sub: "sub \<in> set subs" "x = (sub, D sub)" by auto
    from top_result_InrD [OF step [unfolded sub(2)]] I sub(1)
    show "?I s'" by blast
  qed simp
qed

lemma split_on_nonempty [simp]: "split_on c s \<noteq> []"
  by (cases s) simp_all

lemma split_on_no_separator: "c \<notin> set s \<Longrightarrow> split_on c s = [s]"
  by (induction s) auto

lemma tl_split_on: "c \<in> set s \<Longrightarrow> tl (split_on c s) \<noteq> []"
  by (induction s) auto

lemma last_split_on_Cons:
  assumes "c \<in> set s"
  shows "last (split_on c (x # s)) = last (split_on c s)"
proof -
  obtain seg segs where ss: "split_on c s = seg # segs"
    by (cases "split_on c s") simp_all
  with tl_split_on [OF assms] have "segs \<noteq> []" by simp
  with ss show ?thesis by simp
qed

lemma last_split_on: "last (split_on c s) = rev (takeWhile (\<lambda>x. x \<noteq> c) (rev s))"
proof (induction s)
  case Nil
  then show ?case by simp
next
  case (Cons x s)
  show ?case
  proof (cases "c \<in> set s")
    case True
    then have "takeWhile (\<lambda>x. x \<noteq> c) (rev s @ [x]) = takeWhile (\<lambda>x. x \<noteq> c) (rev s)"
      by (intro takeWhile_append1 [where x = c]) simp_all
    with True Cons.IH show ?thesis
      by (simp add: last_split_on_Cons del: split_on.simps)
  next
    case False
    then have "takeWhile (\<lambda>x. x \<noteq> c) (rev s @ [x]) = rev s @ takeWhile (\<lambda>x. x \<noteq> c) [x]"
      by (intro takeWhile_append2) auto
    with False show ?thesis
      by (simp add: split_on_no_separator)
  qed
qed

lemma resourceName_of_cell:
  assumes "(\<exists>s. rid = JStr s) \<or> \<not> truthy rid"
  shows "resourceName_of rid =
    Inr (case rid of
           JStr s \<Rightarrow> if s = [] then JStr ''Unknown'' else JStr (last (split_on CHR ''/'' s))
         | _ \<Rightarrow> JStr ''Unknown'')"
proof (cases "\<exists>s. rid = JStr s")
  case True
  then obtain s where "rid = JStr s" ..
  then show ?thesis by (simp add: resourceName_of_def pop_def)
next
  case False
  with assms have "\<not> truthy rid" by simp
  with False show ?thesis by (cases rid) (simp_all add: resourceName_of_def)
qed

lemma resource_rowD:
  assumes "resource_row row"
  shows "\<exists>cells q. row = JArr cells \<and> element cells 0 = JNum q \<and>
    ((\<exists>s. element cells 1 = JStr s) \<or> \<not> truthy (element cells 1))"
proof -
  from assms obtain cells where row: "row = JArr cells"
    by (cases row) (simp_all add: resource_row_def)
  with assms obtain q where q: "element cells 0 = JNum q"
    by (cases "element cells 0") (simp_all add: resource_row_def)
  from assms row q have "(\<exists>s. element cells 1 = JStr s) \<or> \<not> truthy (element cells 1)"
    by (cases "element cells 1") (simp_all add: resource_row_def)
  with row q show ?thesis by blast
qed

lemma top_row_resource_row:
  assumes "resource_row row"
  shows "top_row sub row acc = ([], Inr (acc @ [top_entry sub row]))"
proof -
  from resource_rowD [OF assms] obtain cells q where row: "row = JArr cells"
    and q: "element cells 0 = JNum q"
    and rid: "(\<exists>s. element cells 1 = JStr s) \<or> \<not> truthy (element cells 1)"
    by blast
  have gi: "\<And>i. getindex row i = Inr (element cells i)"
    by (simp add: row element_def)
  have c: "\<And>i. cell row i = element cells i"
    by (simp add: row cell_def)
  show ?thesis
    unfolding top_row_def top_entry_def
    by (simp only: gi c bind_lift_Inr resourceName_of_cell [OF rid] q rounded_cost_def
        jsv.simps ret_def)
qed

lemma forEach_top_row:
  "list_all resource_row rs \<Longrightarrow>
   forEach (top_row sub) rs acc = ([], Inr (acc @ map (top_entry sub) rs))"
  by (induction rs arbitrary: acc) (simp_all add: ret_def top_row_resource_row bind_Inr)

lemma top_result_table:
  "resource_table d \<Longrightarrow> top_result (sub, d) acc = ([], Inr (acc @ top_contribution sub d))"
  by (auto simp: top_result_def resource_table_def top_contribution_def payload_rows_def Let_def
      forEach_top_row ret_def split: jsv.splits)

lemma forEach_top_result:
  "\<forall>res\<in>set results. resource_table (snd res) \<Longrightarrow>
   forEach top_result results acc =
     ([], Inr (acc @ concat (map (\<lambda>res. top_contribution (fst res) (snd res)) results)))"
proof (induction results arbitrary: acc)
  case Nil
  then show ?case by (simp add: ret_def)
next
  case (Cons res results)
  obtain sub d where res: "res = (sub, d)" by (cases res)
  with Cons.prems have "resource_table d" by simp
  moreover have "\<And>acc. forEach top_result results acc =
     ([], Inr (acc @ concat (map (\<lambda>res. top_contribution (fst res) (snd res)) results)))"
    using Cons.IH Cons.prems by simp
  ultimately show ?case
    by (simp add: res top_result_table bind_Inr)
qed

lemma promise_all_fetches:
  assumes "\<And>sub. fst (m sub) = [Sent (c sub)]"
  shows "fst (promise_all (map (\<lambda>sub. with_subscription sub (m sub)) subs)) =
    map (\<lambda>sub. Sent (c sub)) subs"
  by (induction subs)
    (simp_all add: promise_all_Cons fst_with_subscription assms del: promise_all.simps(2))

lemma top_handler_tables:
  assumes sd: "getprop body ''startDate'' = Inr sd" and ed: "getprop body ''endDate'' = Inr ed"
    and dates: "truthy sd" "truthy ed"
    and tok: "snd (getAccessToken w) = Inr tok"
    and subs: "snd (getSubscriptions w tok) = Inr subs"
    and tables: "\<forall>sub\<in>set subs. \<exists>d.
        snd (fetchTopResources w tok (subscriptionId sub) sd ed) = Inr d \<and> resource_table d"
  shows "top_handler w body =
     ([Sent TokenRequest, Sent (SubscriptionsRequest tok)] @
      map (\<lambda>sub. Sent (ResourceQuery tok (subscriptionId sub) sd ed)) subs,
      Reply200 (sort_top (concat (map (\<lambda>sub. top_contribution sub
         (projr (snd (fetchTopResources w tok (subscriptionId sub) sd ed)))) subs))))"
proof -
  have t: "getAccessToken w = ([Sent TokenRequest], Inr tok)"
    using tok fst_getAccessToken [of w] by (cases "getAccessToken w") simp
  have s: "getSubscriptions w tok = ([Sent (SubscriptionsRequest tok)], Inr subs)"
    using subs fst_getSubscriptions [of w tok] by (cases "getSubscriptions w tok") simp
  let ?m = "\<lambda>sub. fetchTopResources w tok (subscriptionId sub) sd ed"
  let ?results = "map (\<lambda>sub. (sub, projr (snd (?m sub)))) subs"
  have ok: "\<forall>sub\<in>set subs. \<exists>d. snd (?m sub) = Inr d"
    using tables by blast
  have p: "promise_all (map (\<lambda>sub. with_subscription sub (?m sub)) subs) =
      (map (\<lambda>sub. Sent (ResourceQuery tok (subscriptionId sub) sd ed)) subs, Inr ?results)"
    using promise_all_with_subscription_ok [OF ok]
      promise_all_fetches [of ?m "\<lambda>sub. ResourceQuery tok (subscriptionId sub) sd ed" subs]
    by (simp add: prod_eq_iff fst_fetchTopResources)
  have r: "\<forall>res\<in>set ?results. resource_table (snd res)"
    using tables by auto
  show ?thesis
    unfolding top_handler_def top_attempt_def
    by (simp add: sd ed dates t s p bind_Inr forEach_top_result [OF r] respond_def ret_def o_def)
qed

lemma top_handler_failure:
  assumes sd: "getprop body ''startDate'' = Inr sd" and ed: "getprop body ''endDate'' = Inr ed"
    and dates: "truthy sd" "truthy ed"
    and tok: "snd (getAccessToken w) = Inr tok"
    and subs: "snd (getSubscriptions w tok) = Inr subs"
    and sub: "sub \<in> set subs"
    and failed: "snd (fetchTopResources w tok (subscriptionId sub) sd ed) = Inl e"
  shows "top_handler w body =
     ([Sent TokenRequest, Sent (SubscriptionsRequest tok)] @
      map (\<lambda>sub. Sent (ResourceQuery tok (subscriptionId sub) sd ed)) subs,
      ReplyError 500 ''Failed to fetch top resources'')"
proof -
  have t: "getAccessToken w = ([Sent TokenRequest], Inr tok)"
    using tok fst_getAccessToken [of w] by (cases "getAccessToken w") simp
  have s: "getSubscriptions w tok = ([Sent (SubscriptionsRequest tok)], Inr subs)"
    using subs fst_getSubscriptions [of w tok] by (cases "getSubscriptions w tok") simp
  let ?m = "\<lambda>sub. fetchTopResources w tok (subscriptionId sub) sd ed"
  obtain e' where "snd (promise_all (map (\<lambda>sub. with_subscription sub (?m sub)) subs)) = Inl e'"
    using promise_all_with_subscription_fail [of sub subs ?m e, OF sub failed] by blast
  then have p: "promise_all (map (\<lambda>sub. with_subscription sub (?m sub)) subs) =
      (map (\<lambda>sub. Sent (ResourceQuery tok (subscriptionId sub) sd ed)) subs, Inl e')"
    using promise_all_fetches [of ?m "\<lambda>sub. ResourceQuery tok (subscriptionId sub) sd ed" subs]
    by (simp add: prod_eq_iff fst_fetchTopResources)
  show ?thesis
    unfolding top_handler_def top_attempt_def
    by (simp add: sd ed dates t s p bind_Inr bind_Inl respond_def)
qed

section \<open>Sorting, and rounding to two decimals\<close>



lemma set_sort_top: "set (sort_top xs) \<subseteq> set xs"
  using set_take_subset [of 10 "sort_key (\<lambda>r. - tr_cost r) xs"] by (simp add: sort_top_def)

lemma toFixed2_close:
  "\<exists>n::int. toFixed2 x = of_int n / 100 \<and> \<bar>of_int n / 100 - x\<bar> \<le> 1 / 200"
proof -
  define k where "k = \<lfloor>\<bar>x\<bar> * 100 + 1 / 2\<rfloor>"
  have lo: "of_int k \<le> \<bar>x\<bar> * 100 + 1 / 2" and hi: "\<bar>x\<bar> * 100 + 1 / 2 < of_int k + 1"
    unfolding k_def by linarith+
  show ?thesis
  proof (cases "0 \<le> x")
    case True
    have "toFixed2 x = of_int k / 100"
    proof (cases "x = 0")
      case True
      then have "k = 0" unfolding k_def by (simp add: floor_eq_iff)
      with True show ?thesis by (simp add: toFixed2_def)
    next
      case False
      with \<open>0 \<le> x\<close> have "sgn x = 1" by simp
      then show ?thesis by (simp add: toFixed2_def k_def)
    qed
    moreover have "\<bar>of_int k / 100 - x\<bar> \<le> 1 / 200"
    proof -
      from True have "\<bar>x\<bar> = x" by simp
      with lo hi have "of_int k / 100 - x \<le> 1 / 200" "- (1 / 200) \<le> of_int k / 100 - x"
        by linarith+
      then show ?thesis by linarith
    qed
    ultimately show ?thesis by blast
  next
    case False
    then have "sgn x = - 1" by simp
    then have "toFixed2 x = of_int (- k) / 100"
      by (simp add: toFixed2_def k_def)
    moreover have "\<bar>of_int (- k) / 100 - x\<bar> \<le> 1 / 200"
    proof -
      from False have "\<bar>x\<bar> = - x" by simp
      with lo hi have "of_int (- k) / 100 - x \<le> 1 / 200"
        "- (1 / 200) \<le> of_int (- k) / 100 - x"
        by linarith+
      then show ?thesis by linarith
    qed
    ultimately show ?thesis by blast
  qed
qed

lemma rnd64_12345: "rnd64 (12345 / 1000) = 6949617174986097 / 562949953421312"
  by code_simp

lemma rnd64_12344: "rnd64 (12344 / 1000) = 6949054225032675 / 562949953421312"
  by code_simp

lemma rnd64_1235: "rnd64 (1235 / 100) = 6952431924753203 / 562949953421312"
  by code_simp

lemma rnd64_1234: "rnd64 (1234 / 100) = 3473401212609495 / 281474976710656"
  by code_simp

text \<open>
  Two more readings of decimal literals: the binary64 number for 0.1, and the one for 1.005,
  which lies below 1.005 and so is emitted as 1, not as 1.01.
\<close>

lemma rnd64_tenth: "rnd64 (1 / 10) = 3602879701896397 / 36028797018963968"
  by code_simp

lemma round_1005: "parseFloat_toFixed2 (rnd64 (1005 / 1000)) = 1"
  by code_simp


lemma round_12345: "parseFloat_toFixed2 (rnd64 (12345 / 1000)) = rnd64 (1235 / 100)"
  by code_simp

lemma round_12344: "parseFloat_toFixed2 (rnd64 (12344 / 1000)) = rnd64 (1234 / 100)"
  by code_simp

lemma round_demo:
  "parseFloat_toFixed2 (6949617174986097 / 562949953421312) = 6952431924753203 / 562949953421312"
  by code_simp

lemma round_quarter: "parseFloat_toFixed2 (1 / 4) = 1 / 4"
  by code_simp

section \<open>The entries of a top-resources answer\<close>

lemma top_handler_entry:
  assumes sd: "getprop body ''startDate'' = Inr sd" and ed: "getprop body ''endDate'' = Inr ed"
    and tok: "snd (getAccessToken w) = Inr tok"
    and subs: "snd (getSubscriptions w tok) = Inr subs"
    and reply: "snd (top_handler w body) = Reply200 rs"
    and r: "r \<in> set rs"
  shows "\<exists>sub\<in>set subs. \<exists>d.
    snd (fetchTopResources w tok (subscriptionId sub) sd ed) = Inr d \<and>
    (\<exists>raw\<in>set (payload_rows d). top_row sub raw [] = ([], Inr [r]))"
proof -
  from top_handler_200D [OF reply] obtain sd' ed' tok' subs' xs where
    a: "getprop body ''startDate'' = Inr sd'" "getprop body ''endDate'' = Inr ed'"
      "snd (getAccessToken w) = Inr tok'" "snd (getSubscriptions w tok') = Inr subs'"
    and ok: "\<forall>sub\<in>set subs'. \<exists>d. snd (fetchTopResources w tok' (subscriptionId sub) sd' ed') = Inr d"
    and run: "snd (forEach top_result
           (map (\<lambda>sub. (sub, projr (snd (fetchTopResources w tok' (subscriptionId sub) sd' ed'))))
              subs') []) = Inr xs"
    and rs: "rs = sort_top xs"
    by blast
  from a sd ed tok have eq: "sd' = sd" "ed' = ed" "tok' = tok" by simp_all
  with a(4) subs have eq': "subs' = subs" by simp
  from r rs set_sort_top have "r \<in> set xs" by blast
  with forEach_top_result_provenance [OF run] obtain sub raw where
    sub: "sub \<in> set subs'"
    and raw: "raw \<in> set (payload_rows (projr (snd (fetchTopResources w tok' (subscriptionId sub) sd' ed'))))"
    and row: "top_row sub raw [] = ([], Inr [r])"
    by blast
  from ok sub obtain d where d: "snd (fetchTopResources w tok' (subscriptionId sub) sd' ed') = Inr d"
    by blast
  with sub raw row show ?thesis
    unfolding eq eq' by force
qed

lemma resourceName_of_InrD:
  assumes "resourceName_of rid = Inr name"
  shows "if truthy rid
    then \<exists>s. rid = JStr s \<and> name = JStr (last (split_on CHR ''/'' s))
    else name = JStr ''Unknown''"
  using assms
  by (auto simp: resourceName_of_def pop_def split: jsv.splits if_splits)

lemma resource_name_example:
  "resourceName_of (JStr ''/sub/rg/providers/Foo/bar/myResource'') = Inr (JStr ''myResource'')"
  by (simp add: resourceName_of_def pop_def last_split_on del: split_on.simps)

lemma parseFloat_toFixed2_close:
  assumes "\<bar>q\<bar> < 10 ^ 21"
  shows "\<exists>n::int. parseFloat_toFixed2 q = rnd64 (of_int n / 100) \<and>
    \<bar>of_int n / 100 - q\<bar> \<le> 1 / 200"
proof -
  from toFixed2_close [of q] obtain n :: int where
    n: "toFixed2 q = of_int n / 100" "\<bar>of_int n / 100 - q\<bar> \<le> 1 / 200" by blast
  from assms have "parseFloat_toFixed2 q = rnd64 (toFixed2 q)"
    by (simp add: parseFloat_toFixed2_def)
  with n(1) have "parseFloat_toFixed2 q = rnd64 (of_int n / 100)" by (simp only:)
  with n(2) show ?thesis by blast
qed

section \<open>The plans path\<close>

lemma snd_fetchDefenderPlans:
  "snd (fetchDefenderPlans w tok sid) =
     Inr (case w (PlansRequest tok sid) of
            HttpFail \<Rightarrow> JNull
          | HttpOk d \<Rightarrow> if nullish d \<or> nullish (optprop d ''value'') then JNull else d)"
proof (cases "w (PlansRequest tok sid)")
  case HttpFail
  then show ?thesis
    by (simp add: fetchDefenderPlans_def request_def bind_def)
next
  case (HttpOk d)
  show ?thesis
  proof (cases "nullish d")
    case True
    then have "getprop d ''value'' = Inl TypeError" by (cases d) simp_all
    with HttpOk True show ?thesis
      by (simp add: fetchDefenderPlans_def request_def bind_def lift_def)
  next
    case False
    then have "getprop d ''value'' = Inr (optprop d ''value'')" by (rule getprop_optprop)
    with HttpOk False show ?thesis
      by (simp add: fetchDefenderPlans_def request_def bind_def lift_def throw_def ret_def)
  qed
qed

lemma plan_record_ok:
  assumes "\<not> nullish plan"
  shows "plan_record sub plan acc =
    ([], Inr (acc @ (if has_tier plan then [plan_entry sub plan] else [])))"
proof -
  have p: "getprop plan ''properties'' = Inr (optprop plan ''properties'')"
    "getprop plan ''name'' = Inr (optprop plan ''name'')"
    using assms by (simp_all add: getprop_optprop)
  show ?thesis
  proof (cases "has_tier plan")
    case True
    then have "\<not> nullish (optprop plan ''properties'')"
      by (cases "optprop plan ''properties''") (simp_all add: has_tier_def)
    then have "getprop (optprop plan ''properties'') ''pricingTier'' =
        Inr (optprop (optprop plan ''properties'') ''pricingTier'')"
      by (rule getprop_optprop)
    with True p show ?thesis
      by (simp add: plan_record_def has_tier_def plan_entry_def ret_def)
  next
    case False
    with p show ?thesis
      by (simp add: plan_record_def has_tier_def ret_def)
  qed
qed

lemma plan_record_InrD:
  assumes "plan_record sub plan acc = (l, Inr acc')"
  shows "l = [] \<and> acc' = acc @ (if has_tier plan then [plan_entry sub plan] else [])"
proof -
  have "\<not> nullish plan"
  proof
    assume "nullish plan"
    then have "getprop plan ''properties'' = Inl TypeError" by (cases plan) simp_all
    with assms show False by (simp add: plan_record_def)
  qed
  from plan_record_ok [OF this, of sub acc] assms show ?thesis by simp
qed

lemma forEach_plan_record:
  "list_all (\<lambda>plan. \<not> nullish plan) plans \<Longrightarrow>
   forEach (plan_record sub) plans acc =
     ([], Inr (acc @ map (plan_entry sub) (filter has_tier plans)))"
  by (induction plans arbitrary: acc) (simp_all add: ret_def plan_record_ok bind_Inr)

lemma plan_result_table:
  assumes "plan_table d"
  shows "plan_result (sub, d) acc = ([], Inr (acc @ plan_contribution sub d))"
proof (cases "optprop d ''value''")
  case (JArr plans)
  with assms have "list_all (\<lambda>plan. \<not> nullish plan) plans" by (simp add: plan_table_def)
  with JArr show ?thesis
    by (simp add: plan_result_def plan_contribution_def payload_plans_def forEach_plan_record)
qed (use assms in \<open>simp_all add: plan_result_def plan_contribution_def payload_plans_def
      plan_table_def ret_def\<close>)

lemma forEach_plan_result:
  "\<forall>res\<in>set results. plan_table (snd res) \<Longrightarrow>
   forEach plan_result results acc =
     ([], Inr (acc @ concat (map (\<lambda>res. plan_contribution (fst res) (snd res)) results)))"
proof (induction results arbitrary: acc)
  case Nil
  then show ?case by (simp add: ret_def)
next
  case (Cons res results)
  obtain sub d where res: "res = (sub, d)" by (cases res)
  with Cons.prems have "plan_table d" by simp
  moreover have "\<And>acc. forEach plan_result results acc =
     ([], Inr (acc @ concat (map (\<lambda>res. plan_contribution (fst res) (snd res)) results)))"
    using Cons.IH Cons.prems by simp
  ultimately show ?case
    by (simp add: res plan_result_table bind_Inr)
qed

lemma fetchDefenderPlans_total: "\<exists>d. snd (fetchDefenderPlans w tok sid) = Inr d"
  by (simp add: snd_fetchDefenderPlans)

lemma plans_handler_tables:
  assumes tok: "snd (getAccessToken w) = Inr tok"
    and subs: "snd (getSubscriptions w tok) = Inr subs"
    and tables: "\<forall>sub\<in>set subs. \<forall>d.
        snd (fetchDefenderPlans w tok (subscriptionId sub)) = Inr d \<longrightarrow> plan_table d"
  shows "plans_handler w =
     ([Sent TokenRequest, Sent (SubscriptionsRequest tok)] @
      map (\<lambda>sub. Sent (PlansRequest tok (subscriptionId sub))) subs,
      Reply200 (concat (map (\<lambda>sub. plan_contribution sub
         (projr (snd (fetchDefenderPlans w tok (subscriptionId sub))))) subs)))"
proof -
  have t: "getAccessToken w = ([Sent TokenRequest], Inr tok)"
    using tok fst_getAccessToken [of w] by (cases "getAccessToken w") simp
  have s: "getSubscriptions w tok = ([Sent (SubscriptionsRequest tok)], Inr subs)"
    using subs fst_getSubscriptions [of w tok] by (cases "getSubscriptions w tok") simp
  let ?m = "\<lambda>sub. fetchDefenderPlans w tok (subscriptionId sub)"
  let ?results = "map (\<lambda>sub. (sub, projr (snd (?m sub)))) subs"
  have ok: "\<forall>sub\<in>set subs. \<exists>d. snd (?m sub) = Inr d"
    by (simp add: fetchDefenderPlans_total)
  have p: "promise_all (map (\<lambda>sub. with_subscription sub (?m sub)) subs) =
      (map (\<lambda>sub. Sent (PlansRequest tok (subscriptionId sub))) subs, Inr ?results)"
    using promise_all_with_subscription_ok [OF ok]
      promise_all_fetches [of ?m "\<lambda>sub. PlansRequest tok (subscriptionId sub)" subs]
    by (simp add: prod_eq_iff fst_fetchDefenderPlans)
  have r: "\<forall>res\<in>set ?results. plan_table (snd res)"
  proof
    fix res assume "res \<in> set ?results"
    then obtain sub where sub: "sub \<in> set subs" "res = (sub, projr (snd (?m sub)))" by auto
    from ok sub(1) obtain d where d: "snd (?m sub) = Inr d" by blast
    with tables sub(1) have "plan_table d" by blast
    with d sub(2) show "plan_table (snd res)" by simp
  qed
  show ?thesis
    unfolding plans_handler_def plans_attempt_def
    by (simp add: t s p bind_Inr forEach_plan_result [OF r] respond_def ret_def o_def)
qed

section \<open>Where the rows of an answer come from\<close>

lemma plan_result_InrD:
  assumes "plan_result (sub, d) acc = (l, Inr acc')"
  shows "\<forall>p\<in>set acc'. p \<in> set acc \<or>
    (\<exists>plan\<in>set (payload_plans d). has_tier plan \<and> p = plan_entry sub plan)"
proof (cases "truthy (optprop d ''value'')")
  case False
  with assms show ?thesis by (simp add: plan_result_def ret_def)
next
  case True
  from assms True obtain plans where plans: "optprop d ''value'' = JArr plans"
    by (cases "optprop d ''value''") (simp_all add: plan_result_def throw_def)
  with assms have run: "forEach (plan_record sub) plans acc = (l, Inr acc')"
    by (simp add: plan_result_def)
  have rows: "payload_plans d = plans" by (simp add: payload_plans_def plans)
  let ?I = "\<lambda>s. \<forall>p\<in>set s. p \<in> set acc \<or>
    (\<exists>plan\<in>set plans. has_tier plan \<and> p = plan_entry sub plan)"
  have "?I acc'"
  proof (rule forEach_invariant [where I = ?I, OF _ run])
    fix x s l' s'
    assume x: "x \<in> set plans" and step: "plan_record sub x s = (l', Inr s')" and I: "?I s"
    from plan_record_InrD [OF step]
    have s': "s' = s @ (if has_tier x then [plan_entry sub x] else [])" by simp
    show "?I s'"
    proof
      fix p assume "p \<in> set s'"
      with s' have "p \<in> set s \<or> (has_tier x \<and> p = plan_entry sub x)"
        by (auto split: if_splits)
      then show "p \<in> set acc \<or> (\<exists>plan\<in>set plans. has_tier plan \<and> p = plan_entry sub plan)"
        using I x by blast
    qed
  qed simp
  then show ?thesis by (simp add: rows)
qed

lemma cost_result_InrD:
  assumes "cost_result (sub, Inr d) acc = (l, Inr acc')"
  shows "\<forall>row\<in>set acc'. row \<in> set acc \<or>
    (\<exists>raw\<in>set (payload_rows d). row = flat_row sub (row_cells raw))"
proof (cases "optprop (optprop d ''properties'') ''rows''")
  case (JArr rs)
  with assms have run: "forEach (cost_row sub) rs acc = (l, Inr acc')"
    by (simp add: cost_result_def)
  have rows: "payload_rows d = rs" by (simp add: payload_rows_def JArr)
  let ?I = "\<lambda>s. \<forall>row\<in>set s. row \<in> set acc \<or>
    (\<exists>raw\<in>set rs. row = flat_row sub (row_cells raw))"
  have "?I acc'"
  proof (rule forEach_invariant [where I = ?I, OF _ run])
    fix x s l' s'
    assume x: "x \<in> set rs" and step: "cost_row sub x s = (l', Inr s')" and I: "?I s"
    from cost_row_InrD [OF step] have s': "s' = s @ [flat_row sub (row_cells x)]" by simp
    show "?I s'"
    proof
      fix row assume "row \<in> set s'"
      with s' have "row \<in> set s \<or> row = flat_row sub (row_cells x)" by auto
      then show "row \<in> set acc \<or> (\<exists>raw\<in>set rs. row = flat_row sub (row_cells raw))"
        using I x by blast
    qed
  qed simp
  then show ?thesis by (simp add: rows)
next
  case JUndef
  with assms show ?thesis by (simp add: cost_result_def ret_def)
next
  case JNull
  with assms show ?thesis by (simp add: cost_result_def ret_def)
next
  case (JBool b)
  with assms show ?thesis by (cases b) (simp_all add: cost_result_def ret_def throw_def)
next
  case (JNum q)
  with assms show ?thesis by (cases "q = 0") (simp_all add: cost_result_def ret_def throw_def)
next
  case (JStr s)
  with assms show ?thesis by (cases "s = []") (simp_all add: cost_result_def ret_def throw_def)
next
  case (JObj kvs)
  with assms show ?thesis by (simp add: cost_result_def throw_def)
qed

lemma costs_handler_row:
  assumes sd: "getprop body ''startDate'' = Inr sd" and ed: "getprop body ''endDate'' = Inr ed"
    and tok: "snd (getAccessToken w) = Inr tok"
    and subs: "snd (getSubscriptions w tok) = Inr subs"
    and reply: "snd (costs_handler w body) = Reply200 b"
    and row: "row \<in> set (body_rows b)"
  shows "\<exists>sub\<in>set subs. \<exists>d.
    snd (fetchCostData w tok (subscriptionId sub) sd ed) = Inr d \<and>
    (\<exists>raw\<in>set (payload_rows d). row = flat_row sub (row_cells raw))"
proof -
  have t: "getAccessToken w = ([Sent TokenRequest], Inr tok)"
    using tok fst_getAccessToken [of w] by (cases "getAccessToken w") simp
  have s: "getSubscriptions w tok = ([Sent (SubscriptionsRequest tok)], Inr subs)"
    using subs fst_getSubscriptions [of w tok] by (cases "getSubscriptions w tok") simp
  from reply have a: "snd (costs_attempt w body) = Inr (Reply200 b)"
    by (simp add: costs_handler_def snd_respond_200)
  then have dates: "truthy sd" "truthy ed"
    by (auto simp: costs_attempt_def sd ed ret_def split: if_splits)
  let ?results = "map (\<lambda>sub. (sub, snd (fetchCostData w tok (subscriptionId sub) sd ed))) subs"
  from a obtain rows where run: "snd (forEach cost_result ?results []) = Inr rows"
    by (cases "snd (forEach cost_result ?results [])")
      (simp_all add: costs_attempt_def sd ed dates t s bind_Inr promise_all_settled snd_bind)
  with a have b: "body_rows b = rows"
    by (auto simp: costs_attempt_def sd ed dates t s bind_Inr promise_all_settled snd_bind ret_def)
  obtain l where run': "forEach cost_result ?results [] = (l, Inr rows)"
    using run by (cases "forEach cost_result ?results []") simp
  let ?I = "\<lambda>s. \<forall>row\<in>set s. \<exists>sub\<in>set subs. \<exists>d.
    snd (fetchCostData w tok (subscriptionId sub) sd ed) = Inr d \<and>
    (\<exists>raw\<in>set (payload_rows d). row = flat_row sub (row_cells raw))"
  have "?I rows"
  proof (rule forEach_invariant [where I = ?I, OF _ run'])
    fix x s l' s'
    assume x: "x \<in> set ?results" and step: "cost_result x s = (l', Inr s')" and I: "?I s"
    from x obtain sub where sub: "sub \<in> set subs"
      "x = (sub, snd (fetchCostData w tok (subscriptionId sub) sd ed))" by auto
    show "?I s'"
    proof (cases "snd (fetchCostData w tok (subscriptionId sub) sd ed)")
      case (Inl e)
      with step sub(2) have "s' = s" by (simp add: cost_result_failed)
      with I show ?thesis by simp
    next
      case (Inr d)
      from cost_result_InrD [OF step [unfolded sub(2) Inr]] I sub(1) Inr
      show ?thesis by blast
    qed
  qed simp
  with row b show ?thesis by blast
qed

lemma plans_handler_entry:
  assumes tok: "snd (getAccessToken w) = Inr tok"
    and subs: "snd (getSubscriptions w tok) = Inr subs"
    and reply: "snd (plans_handler w) = Reply200 ps"
    and p: "p \<in> set ps"
  shows "\<exists>sub\<in>set subs. \<exists>d.
    snd (fetchDefenderPlans w tok (subscriptionId sub)) = Inr d \<and>
    (\<exists>plan\<in>set (payload_plans d). has_tier plan \<and> p = plan_entry sub plan)"
proof -
  have t: "getAccessToken w = ([Sent TokenRequest], Inr tok)"
    using tok fst_getAccessToken [of w] by (cases "getAccessToken w") simp
  have s: "getSubscriptions w tok = ([Sent (SubscriptionsRequest tok)], Inr subs)"
    using subs fst_getSubscriptions [of w tok] by (cases "getSubscriptions w tok") simp
  let ?m = "\<lambda>sub. fetchDefenderPlans w tok (subscriptionId sub)"
  let ?results = "map (\<lambda>sub. (sub, projr (snd (?m sub)))) subs"
  have ok: "\<forall>sub\<in>set subs. \<exists>d. snd (?m sub) = Inr d"
    by (simp add: fetchDefenderPlans_total)
  have pa: "snd (promise_all (map (\<lambda>sub. with_subscription sub (?m sub)) subs)) = Inr ?results"
    by (rule promise_all_with_subscription_ok [OF ok])
  from reply have a: "snd (plans_attempt w) = Inr (Reply200 ps)"
    by (simp add: plans_handler_def snd_respond_200)
  then obtain xs where run: "snd (forEach plan_result ?results []) = Inr xs"
    by (cases "snd (forEach plan_result ?results [])")
      (simp_all add: plans_attempt_def t s bind_Inr snd_bind pa)
  with a have ps: "ps = xs"
    by (simp add: plans_attempt_def t s bind_Inr snd_bind pa ret_def)
  obtain l where run': "forEach plan_result ?results [] = (l, Inr xs)"
    using run by (cases "forEach plan_result ?results []") simp
  let ?I = "\<lambda>s. \<forall>p\<in>set s. \<exists>sub\<in>set subs. \<exists>d.
    snd (?m sub) = Inr d \<and>
    (\<exists>plan\<in>set (payload_plans d). has_tier plan \<and> p = plan_entry sub plan)"
  have "?I xs"
  proof (rule forEach_invariant [where I = ?I, OF _ run'])
    fix x s l' s'
    assume x: "x \<in> set ?results" and step: "plan_result x s = (l', Inr s')" and I: "?I s"
    from x obtain sub where sub: "sub \<in> set subs" "x = (sub, projr (snd (?m sub)))" by auto
    from ok sub(1) obtain d where d: "snd (?m sub) = Inr d" by blast
    from plan_result_InrD [OF step [unfolded sub(2)]] I sub(1) d
    show "?I s'" by simp blast
  qed simp
  with p ps show ?thesis by blast
qed

lemma flat_row_carries:
  "length (flat_row sub cells) = 6 \<and> flat_row sub cells ! 3 = subscriptionId sub \<and>
   flat_row sub cells ! 5 = displayName sub"
  by (simp add: flat_row_def)

lemma top_row_carries:
  assumes "top_row sub raw [] = ([], Inr [r])"
  shows "tr_subscriptionId r = subscriptionId sub \<and> tr_subscriptionName r = displayName sub"
  using top_row_InrD [OF assms] by auto

section \<open>Answers without a container\<close>

lemma lacks_rows_empty:
  assumes "lacks_rows d"
  shows "cost_table d" "resource_table d" "payload_rows d = []"
proof -
  from assms have "optprop (optprop d ''properties'') ''rows'' = JUndef \<or>
      optprop (optprop d ''properties'') ''rows'' = JNull"
    by (cases "optprop (optprop d ''properties'') ''rows''") (simp_all add: lacks_rows_def)
  then show "cost_table d" "resource_table d" "payload_rows d = []"
    by (auto simp: cost_table_def resource_table_def payload_rows_def)
qed

lemma lacks_value_null:
  "snd (fetchDefenderPlans w tok sid) =
     Inr (case w (PlansRequest tok sid) of
            HttpFail \<Rightarrow> JNull
          | HttpOk d \<Rightarrow> if lacks_value d then JNull else d)"
proof -
  have "\<And>d. nullish d \<Longrightarrow> lacks_value d"
    by (simp add: lacks_value_def) (metis nullish.simps(1) optprop.simps(2,3) nullish.elims(2))
  then show ?thesis
    by (auto simp: snd_fetchDefenderPlans lacks_value_def split: upstream.splits)
qed

section \<open>Requests without a date range\<close>

text \<open>
  When \<^verbatim>\<open>startDate\<close> or \<^verbatim>\<open>endDate\<close> is absent or falsy, neither handler sends a request
  upstream, and both answer 400 when the request has a body.
\<close>

lemma missing_dates_no_calls:
  assumes "\<not> truthy (optprop body ''startDate'') \<or> \<not> truthy (optprop body ''endDate'')"
  shows "fst (costs_handler w body) = [] \<and> fst (top_handler w body) = [] \<and>
    (\<not> nullish body \<longrightarrow>
       snd (costs_handler w body) = ReplyError 400 ''Missing required parameters'' \<and>
       snd (top_handler w body) = ReplyError 400 ''Missing required parameters'')"
proof (cases "nullish body")
  case True
  then have "getprop body ''startDate'' = Inl TypeError"
    by (cases body) simp_all
  then show ?thesis
    using True
    by (simp add: costs_handler_def costs_attempt_def top_handler_def top_attempt_def
        respond_def)
next
  case False
  then have "getprop body ''startDate'' = Inr (optprop body ''startDate'')"
    "getprop body ''endDate'' = Inr (optprop body ''endDate'')"
    by (simp_all add: getprop_optprop)
  then show ?thesis
    using assms
    by (auto simp: costs_handler_def costs_attempt_def top_handler_def top_attempt_def
        respond_def ret_def)
qed

section \<open>The sample deployment, evaluated\<close>

lemma demo_token: "getAccessToken (demo_world c r p) = ([Sent TokenRequest], Inr (JStr ''token''))"
  by (simp add: getAccessToken_def rethrow_def bind_def request_def lift_def demo_world_def)

lemma demo_subscriptions:
  "getSubscriptions (demo_world c r p) tok = ([Sent (SubscriptionsRequest tok)], Inr demo_subs)"
  by (simp add: getSubscriptions_def rethrow_def bind_def request_def lift_def demo_world_def
      subscription_of_def demo_subs_def)

lemma demo_dates:
  "getprop demo_body ''startDate'' = Inr (JStr ''2024-01-01'')"
  "getprop demo_body ''endDate'' = Inr (JStr ''2024-01-31'')"
  by (simp_all add: demo_body_def)

lemma demo_cost_1:
  "fetchCostData (demo_world c r p) tok (JStr ''sub-1'') sd ed =
     ([Sent (CostQuery tok (JStr ''sub-1'') sd ed)], Inr demo_costs)"
  by (simp add: fetchCostData_def rethrow_def bind_def request_def demo_world_def ret_def
      demo_costs_def)

lemma demo_cost_2_fail:
  "fetchCostData (demo_world HttpFail r p) tok (JStr ''sub-2'') sd ed =
     ([Sent (CostQuery tok (JStr ''sub-2'') sd ed)], Inl (Failed ''Failed to fetch cost data''))"
  by (simp add: fetchCostData_def rethrow_def bind_def request_def demo_world_def)

lemma demo_costs_table: "cost_table demo_costs"
  by (simp add: cost_table_def demo_costs_def iterable_def)

lemma demo_resources_1:
  "fetchTopResources (demo_world c r p) tok (JStr ''sub-1'') sd ed =
     ([Sent (ResourceQuery tok (JStr ''sub-1'') sd ed)], Inr demo_resources)"
  by (simp add: fetchTopResources_def rethrow_def bind_def request_def demo_world_def ret_def
      demo_resources_def)

lemma demo_resources_2:
  "\<not> nullish d \<Longrightarrow>
   fetchTopResources (demo_world c (HttpOk d) p) tok (JStr ''sub-2'') sd ed =
     ([Sent (ResourceQuery tok (JStr ''sub-2'') sd ed)], Inr d)"
  by (simp add: fetchTopResources_def rethrow_def bind_def request_def demo_world_def ret_def)

lemma demo_resources_2_fail:
  "fetchTopResources (demo_world c HttpFail p) tok (JStr ''sub-2'') sd ed =
     ([Sent (ResourceQuery tok (JStr ''sub-2'') sd ed)],
      Inl (Failed ''Failed to fetch top resources''))"
  by (simp add: fetchTopResources_def rethrow_def bind_def request_def demo_world_def)

lemma demo_resources_table: "resource_table demo_resources"
  by (simp add: resource_table_def demo_resources_def resource_row_def element_def)

lemma demo_resources_rows:
  "payload_rows demo_resources =
     [JArr [JNum (1 / 4), JNull, JStr ''Storage''],
      JArr [JNum (6949617174986097 / 562949953421312), JStr ''/sub/rg/providers/Foo/bar/myResource'',
            JStr ''Servers'']]"
  by (simp add: payload_rows_def demo_resources_def)

lemma demo_top_reply:
  "top_handler (demo_world c (HttpOk (JObj [])) p) demo_body =
     ([Sent TokenRequest, Sent (SubscriptionsRequest (JStr ''token'')),
       Sent (ResourceQuery (JStr ''token'') (JStr ''sub-1'') (JStr ''2024-01-01'')
               (JStr ''2024-01-31'')),
       Sent (ResourceQuery (JStr ''token'') (JStr ''sub-2'') (JStr ''2024-01-01'')
               (JStr ''2024-01-31''))],
      Reply200
        [\<lparr>tr_subscriptionId = JStr ''sub-1'', tr_subscriptionName = JStr ''Production'',
          tr_resourceName = JStr ''myResource'',
          tr_resourceId = JStr ''/sub/rg/providers/Foo/bar/myResource'',
          tr_meterSubCategory = JStr ''Servers'', tr_cost = 6952431924753203 / 562949953421312\<rparr>,
         \<lparr>tr_subscriptionId = JStr ''sub-1'', tr_subscriptionName = JStr ''Production'',
          tr_resourceName = JStr ''Unknown'', tr_resourceId = JNull,
          tr_meterSubCategory = JStr ''Storage'', tr_cost = 1 / 4\<rparr>])"
proof -
  let ?w = "demo_world c (HttpOk (JObj [])) p"
  have empty: "resource_table (JObj [])" "payload_rows (JObj []) = []"
    by (simp_all add: resource_table_def payload_rows_def)
  have tables: "\<forall>sub\<in>set demo_subs. \<exists>d.
      snd (fetchTopResources ?w (JStr ''token'') (subscriptionId sub)
             (JStr ''2024-01-01'') (JStr ''2024-01-31'')) = Inr d \<and> resource_table d"
    by (simp add: demo_subs_def demo_resources_1 demo_resources_2 demo_resources_table empty)
  have t: "snd (getAccessToken ?w) = Inr (JStr ''token'')" by (simp add: demo_token)
  have s: "snd (getSubscriptions ?w (JStr ''token'')) = Inr demo_subs"
    by (simp add: demo_subscriptions)
  show ?thesis
    unfolding top_handler_tables [OF demo_dates _ _ t s tables, simplified]
    by (simp add: demo_subs_def demo_resources_1 demo_resources_2 top_contribution_def
        demo_resources_rows empty top_entry_def cell_def element_def round_demo round_quarter
        sort_top_def last_split_on del: split_on.simps)
qed

lemma demo_top_entries:
  "snd (top_handler (demo_world c (HttpOk (JObj [])) p) demo_body) =
     Reply200 [demo_entry, demo_entry_unnamed]"
  by (simp add: demo_top_reply demo_entry_def demo_entry_unnamed_def)

lemma demo_plans_1:
  "snd (fetchDefenderPlans (demo_world c r p) tok (JStr ''sub-1'')) = Inr demo_plans"
  by (simp add: snd_fetchDefenderPlans demo_world_def demo_plans_def)

lemma demo_plans_2:
  "snd (fetchDefenderPlans (demo_world c r p) tok (JStr ''sub-2'')) =
     Inr (case p of HttpFail \<Rightarrow> JNull
          | HttpOk d \<Rightarrow> if nullish d \<or> nullish (optprop d ''value'') then JNull else d)"
  by (simp add: snd_fetchDefenderPlans demo_world_def)

lemma demo_plans_table: "plan_table demo_plans" "plan_table JNull"
  by (simp_all add: plan_table_def demo_plans_def)

lemma demo_plans_entries:
  "map (plan_entry \<lparr>subscriptionId = JStr ''sub-1'', displayName = JStr ''Production''\<rparr>)
     (filter has_tier (payload_plans demo_plans)) = [demo_plan]"
  "payload_plans JNull = []"
  by (simp_all add: payload_plans_def demo_plans_def has_tier_def plan_entry_def demo_plan_def)

lemma demo_plans_reply:
  "snd (plans_handler (demo_world c r HttpFail)) = Reply200 [demo_plan]"
proof -
  let ?w = "demo_world c r HttpFail"
  have t: "snd (getAccessToken ?w) = Inr (JStr ''token'')" by (simp add: demo_token)
  have s: "snd (getSubscriptions ?w (JStr ''token'')) = Inr demo_subs"
    by (simp add: demo_subscriptions)
  have tables: "\<forall>sub\<in>set demo_subs. \<forall>d.
      snd (fetchDefenderPlans ?w (JStr ''token'') (subscriptionId sub)) = Inr d \<longrightarrow> plan_table d"
    by (simp add: demo_subs_def demo_plans_1 demo_plans_2 demo_plans_table)
  show ?thesis
    unfolding plans_handler_tables [OF t s tables]
    by (simp add: demo_subs_def demo_plans_1 demo_plans_2 plan_contribution_def
        demo_plans_entries)
qed

lemma demo_cost_2:
  "\<not> nullish d \<Longrightarrow>
   fetchCostData (demo_world (HttpOk d) r p) tok (JStr ''sub-2'') sd ed =
     ([Sent (CostQuery tok (JStr ''sub-2'') sd ed)], Inr d)"
  by (simp add: fetchCostData_def rethrow_def bind_def request_def demo_world_def ret_def)

lemma demo_costs_entries:
  "cost_contribution \<lparr>subscriptionId = JStr ''sub-1'', displayName = JStr ''Production''\<rparr>
     (Inr demo_costs) =
     [[JNum (5 / 2), JStr ''Microsoft Defender for Cloud'', JStr ''Servers'', JStr ''sub-1'',
       JStr ''rg-app'', JStr ''Production''],
      [JNum 7, JStr ''Microsoft Defender for Cloud'', JStr ''Storage'', JStr ''sub-1'',
       JStr ''Unknown'', JStr ''Production'']]"
  by (simp add: cost_contribution_def payload_rows_def demo_costs_def flat_row_def row_cells_def
      element_def)

lemma demo_top_contribution:
  "top_contribution \<lparr>subscriptionId = JStr ''sub-1'', displayName = JStr ''Production''\<rparr>
     demo_resources = [demo_entry_unnamed, demo_entry]"
  by (simp add: top_contribution_def demo_resources_rows top_entry_def cell_def element_def
      round_demo round_quarter demo_entry_def demo_entry_unnamed_def last_split_on
      del: split_on.simps)

lemma demo_sort_top: "sort_top [demo_entry_unnamed, demo_entry] = [demo_entry, demo_entry_unnamed]"
  by (simp add: sort_top_def demo_entry_def demo_entry_unnamed_def)

section \<open>The claims\<close>

text \<open>
  C1. On \<^verbatim>\<open>/api/costs\<close>, with a date range, a token and a subscription list, and every
  successful query answering with a table: the request is answered with status 200, the
  number of merged rows is the sum of the row counts of the subscriptions whose query
  succeeded (a failed one adds nothing), and the error log has one line per failed
  subscription, in order.
\<close>

theorem costs_row_count:
  assumes sd: "getprop body ''startDate'' = Inr sd" and ed: "getprop body ''endDate'' = Inr ed"
    and dates: "truthy sd" "truthy ed"
    and tok: "snd (getAccessToken w) = Inr tok"
    and subs: "snd (getSubscriptions w tok) = Inr subs"
    and tables: "\<forall>sub\<in>set subs. \<forall>d.
        snd (fetchCostData w tok (subscriptionId sub) sd ed) = Inr d \<longrightarrow> cost_table d"
  shows "\<exists>b. snd (costs_handler w body) = Reply200 b \<and>
     length (body_rows b) =
       sum_list (map (\<lambda>sub. case snd (fetchCostData w tok (subscriptionId sub) sd ed) of
                                Inl e \<Rightarrow> 0 | Inr d \<Rightarrow> length (payload_rows d)) subs) \<and>
     filter is_logged (fst (costs_handler w body)) =
       map (\<lambda>sub. LoggedFailure (subscriptionId sub))
         (filter (\<lambda>sub. isl (snd (fetchCostData w tok (subscriptionId sub) sd ed))) subs)"
proof -
  have len: "\<And>sub r. length (cost_contribution sub r) =
      (case r of Inl e \<Rightarrow> 0 | Inr d \<Rightarrow> length (payload_rows d))"
    by (simp add: cost_contribution_def split: sum.splits)
  have logged: "\<And>xs :: subscription list. \<And>f g.
      filter is_logged (map (\<lambda>sub. Sent (f sub)) xs) = []"
    by (simp add: is_logged_def filter_empty_conv)
  have logged': "\<And>xs :: subscription list. \<And>f.
      filter is_logged (map (\<lambda>sub. LoggedFailure (f sub)) xs) = map (\<lambda>sub. LoggedFailure (f sub)) xs"
    by (simp add: is_logged_def filter_id_conv)
  show ?thesis
    unfolding costs_handler_tables [OF assms]
    by (simp add: length_concat o_def len logged logged' is_logged_def)
qed

theorem costs_row_count_witness:
  "snd (getSubscriptions (demo_world HttpFail HttpFail HttpFail) (JStr ''token'')) =
     Inr demo_subs \<and>
   snd (fetchCostData (demo_world HttpFail HttpFail HttpFail) (JStr ''token'') (JStr ''sub-1'')
          (JStr ''2024-01-01'') (JStr ''2024-01-31'')) = Inr demo_costs \<and>
   cost_table demo_costs \<and> length (payload_rows demo_costs) = 2 \<and>
   isl (snd (fetchCostData (demo_world HttpFail HttpFail HttpFail) (JStr ''token'')
               (JStr ''sub-2'') (JStr ''2024-01-01'') (JStr ''2024-01-31''))) \<and>
   (\<exists>b. snd (costs_handler (demo_world HttpFail HttpFail HttpFail) demo_body) = Reply200 b \<and>
        length (body_rows b) = 2 \<and>
        filter is_logged (fst (costs_handler (demo_world HttpFail HttpFail HttpFail) demo_body)) =
          [LoggedFailure (JStr ''sub-2'')])"
proof -
  let ?w = "demo_world HttpFail HttpFail HttpFail"
  have tables: "\<forall>sub\<in>set demo_subs. \<forall>d.
      snd (fetchCostData ?w (JStr ''token'') (subscriptionId sub)
             (JStr ''2024-01-01'') (JStr ''2024-01-31'')) = Inr d \<longrightarrow> cost_table d"
    by (simp add: demo_subs_def demo_cost_1 demo_cost_2_fail demo_costs_table)
  have rows: "length (payload_rows demo_costs) = 2"
    by (simp add: payload_rows_def demo_costs_def)
  have "\<exists>b. snd (costs_handler ?w demo_body) = Reply200 b \<and>
        length (body_rows b) = 2 \<and>
        filter is_logged (fst (costs_handler ?w demo_body)) = [LoggedFailure (JStr ''sub-2'')]"
    using costs_row_count [of demo_body "JStr ''2024-01-01''" "JStr ''2024-01-31''" ?w
        "JStr ''token''" demo_subs, OF demo_dates _ _ _ _ tables]
    by (simp add: demo_token demo_subscriptions)
      (simp add: demo_subs_def demo_cost_1 demo_cost_2_fail rows)
  then show ?thesis
    by (simp add: demo_subscriptions demo_cost_1 demo_cost_2_fail demo_costs_table rows)
qed

text \<open>
  C3. On \<^verbatim>\<open>/api/costs\<close> and \<^verbatim>\<open>/api/top-resources\<close>, a request that has no parsed body at all
  (\<^verbatim>\<open>req.body\<close> is \<^verbatim>\<open>undefined\<close>) lacks both \<^verbatim>\<open>startDate\<close> and \<^verbatim>\<open>endDate\<close>. The destructuring of
  lines 133 and 249 then throws inside the \<^verbatim>\<open>try\<close>, and the handler answers with status 500
  and the message of its \<^verbatim>\<open>catch\<close>, not with the 400 of lines 135 and 251. No request is sent
  upstream.
\<close>

theorem no_body_answers_500:
  "\<not> truthy (optprop JUndef ''startDate'') \<and> \<not> truthy (optprop JUndef ''endDate'') \<and>
   costs_handler w JUndef = ([], ReplyError 500 ''Failed to fetch cost data'') \<and>
   top_handler w JUndef = ([], ReplyError 500 ''Failed to fetch top resources'')"
  by (simp add: costs_handler_def costs_attempt_def top_handler_def top_attempt_def respond_def)

text \<open>
  C8. On \<^verbatim>\<open>/api/costs\<close>, with a date range, a token and a subscription list, and every
  successful query answering with a table: the answer has status 200 and carries the
  subscription list, the fixed six columns, and the merged rows, which are, subscription by
  subscription and row by row, the raw row flattened. A raw row of five cells becomes cost,
  meter category, meter subcategory, the subscription's id, the resource group (or
  \<^verbatim>\<open>Unknown\<close> when it is falsy) and the subscription's name; its fourth cell is dropped. An
  empty subscription list yields status 200 with no rows.
\<close>

theorem costs_reply_shape:
  assumes sd: "getprop body ''startDate'' = Inr sd" and ed: "getprop body ''endDate'' = Inr ed"
    and dates: "truthy sd" "truthy ed"
    and tok: "snd (getAccessToken w) = Inr tok"
    and subs: "snd (getSubscriptions w tok) = Inr subs"
    and tables: "\<forall>sub\<in>set subs. \<forall>d.
        snd (fetchCostData w tok (subscriptionId sub) sd ed) = Inr d \<longrightarrow> cost_table d"
  shows "snd (costs_handler w body) =
      Reply200 \<lparr>body_rows =
          concat (map (\<lambda>sub.
            case snd (fetchCostData w tok (subscriptionId sub) sd ed) of
              Inl e \<Rightarrow> []
            | Inr d \<Rightarrow> map (\<lambda>row. flat_row sub (row_cells row)) (payload_rows d)) subs),
        body_columns =
          [(''Cost'', ''Number''), (''MeterCategory'', ''String''),
           (''MeterSubCategory'', ''String''), (''SubscriptionId'', ''String''),
           (''ResourceGroup'', ''String''), (''SubscriptionName'', ''String'')],
        body_subscriptions = subs\<rparr> \<and>
    flat_row sub (row_cells (JArr [cost, meterCategory, meterSubCategory, unused, resourceGroup])) =
      [cost, meterCategory, meterSubCategory, subscriptionId sub,
       (if truthy resourceGroup then resourceGroup else JStr ''Unknown''), displayName sub] \<and>
    (subs = [] \<longrightarrow>
      snd (costs_handler w body) =
        Reply200 \<lparr>body_rows = [], body_columns = cost_columns, body_subscriptions = []\<rparr>)"
proof -
  have c: "\<And>sub r. cost_contribution sub r =
      (case r of Inl e \<Rightarrow> []
       | Inr d \<Rightarrow> map (\<lambda>row. flat_row sub (row_cells row)) (payload_rows d))"
    by (simp add: cost_contribution_def)
  show ?thesis
    unfolding costs_handler_tables [OF assms]
    by (simp add: c cost_columns_def flat_row_def row_cells_def element_def)
qed

theorem costs_reply_shape_witness:
  "snd (getSubscriptions (demo_world HttpFail HttpFail HttpFail) (JStr ''token'')) =
     Inr demo_subs \<and>
   snd (fetchCostData (demo_world HttpFail HttpFail HttpFail) (JStr ''token'') (JStr ''sub-1'')
          (JStr ''2024-01-01'') (JStr ''2024-01-31'')) = Inr demo_costs \<and>
   cost_table demo_costs \<and>
   snd (costs_handler (demo_world HttpFail HttpFail HttpFail) demo_body) =
     Reply200 \<lparr>body_rows =
       [[JNum (5 / 2), JStr ''Microsoft Defender for Cloud'', JStr ''Servers'', JStr ''sub-1'',
         JStr ''rg-app'', JStr ''Production''],
        [JNum 7, JStr ''Microsoft Defender for Cloud'', JStr ''Storage'', JStr ''sub-1'',
         JStr ''Unknown'', JStr ''Production'']],
       body_columns = cost_columns, body_subscriptions = demo_subs\<rparr>"
proof -
  let ?w = "demo_world HttpFail HttpFail HttpFail"
  have tables: "\<forall>sub\<in>set demo_subs. \<forall>d.
      snd (fetchCostData ?w (JStr ''token'') (subscriptionId sub)
             (JStr ''2024-01-01'') (JStr ''2024-01-31'')) = Inr d \<longrightarrow> cost_table d"
    by (simp add: demo_subs_def demo_cost_1 demo_cost_2_fail demo_costs_table)
  have rows: "payload_rows demo_costs =
      [JArr [JNum (5 / 2), JStr ''Microsoft Defender for Cloud'', JStr ''Servers'',
              JStr ''sub-1'', JStr ''rg-app''],
       JArr [JNum 7, JStr ''Microsoft Defender for Cloud'', JStr ''Storage'',
              JStr ''sub-1'', JNull]]"
    by (simp add: payload_rows_def demo_costs_def)
  have "snd (costs_handler ?w demo_body) =
     Reply200 \<lparr>body_rows =
       [[JNum (5 / 2), JStr ''Microsoft Defender for Cloud'', JStr ''Servers'', JStr ''sub-1'',
         JStr ''rg-app'', JStr ''Production''],
        [JNum 7, JStr ''Microsoft Defender for Cloud'', JStr ''Storage'', JStr ''sub-1'',
         JStr ''Unknown'', JStr ''Production'']],
       body_columns = cost_columns, body_subscriptions = demo_subs\<rparr>"
    using costs_reply_shape [of demo_body "JStr ''2024-01-01''" "JStr ''2024-01-31''" ?w
        "JStr ''token''" demo_subs, OF demo_dates _ _ _ _ tables, THEN conjunct1]
    by (simp add: demo_token demo_subscriptions)
      (simp add: demo_subs_def demo_cost_1 demo_cost_2_fail rows flat_row_def row_cells_def
        element_def cost_columns_def)
  then show ?thesis
    by (simp add: demo_subscriptions demo_cost_1 demo_costs_table)
qed



text \<open>
  C4. On \<^verbatim>\<open>/api/top-resources\<close>, with a date range, a token and a subscription list: when the
  query of one subscription of the list fails, the request is answered with status 500 and
  the message of the handler's \<^verbatim>\<open>catch\<close>, with no entries at all, although every
  subscription's query was sent.
\<close>

theorem top_failure_fails_request:
  assumes sd: "getprop body ''startDate'' = Inr sd" and ed: "getprop body ''endDate'' = Inr ed"
    and dates: "truthy sd" "truthy ed"
    and tok: "snd (getAccessToken w) = Inr tok"
    and subs: "snd (getSubscriptions w tok) = Inr subs"
    and sub: "sub \<in> set subs"
    and failed: "snd (fetchTopResources w tok (subscriptionId sub) sd ed) = Inl e"
  shows "snd (top_handler w body) = ReplyError 500 ''Failed to fetch top resources'' \<and>
    fst (top_handler w body) =
      [Sent TokenRequest, Sent (SubscriptionsRequest tok)] @
      map (\<lambda>sub. Sent (ResourceQuery tok (subscriptionId sub) sd ed)) subs"
  by (simp add: top_handler_failure [OF assms])

theorem top_failure_fails_request_witness:
  "snd (getSubscriptions (demo_world HttpFail HttpFail HttpFail) (JStr ''token'')) =
     Inr demo_subs \<and>
   snd (fetchTopResources (demo_world HttpFail HttpFail HttpFail) (JStr ''token'')
          (JStr ''sub-1'') (JStr ''2024-01-01'') (JStr ''2024-01-31'')) = Inr demo_resources \<and>
   snd (fetchTopResources (demo_world HttpFail HttpFail HttpFail) (JStr ''token'')
          (JStr ''sub-2'') (JStr ''2024-01-01'') (JStr ''2024-01-31'')) =
     Inl (Failed ''Failed to fetch top resources'') \<and>
   top_handler (demo_world HttpFail HttpFail HttpFail) demo_body =
     ([Sent TokenRequest, Sent (SubscriptionsRequest (JStr ''token'')),
       Sent (ResourceQuery (JStr ''token'') (JStr ''sub-1'') (JStr ''2024-01-01'')
               (JStr ''2024-01-31'')),
       Sent (ResourceQuery (JStr ''token'') (JStr ''sub-2'') (JStr ''2024-01-01'')
               (JStr ''2024-01-31''))],
      ReplyError 500 ''Failed to fetch top resources'')"
proof -
  let ?w = "demo_world HttpFail HttpFail HttpFail"
  have t: "snd (getAccessToken ?w) = Inr (JStr ''token'')" by (simp add: demo_token)
  have s: "snd (getSubscriptions ?w (JStr ''token'')) = Inr demo_subs"
    by (simp add: demo_subscriptions)
  have m: "\<lparr>subscriptionId = JStr ''sub-2'', displayName = JStr ''Staging''\<rparr> \<in> set demo_subs"
    by (simp add: demo_subs_def)
  have f: "snd (fetchTopResources ?w (JStr ''token'')
      (subscriptionId \<lparr>subscriptionId = JStr ''sub-2'', displayName = JStr ''Staging''\<rparr>)
      (JStr ''2024-01-01'') (JStr ''2024-01-31'')) = Inl (Failed ''Failed to fetch top resources'')"
    by (simp add: demo_resources_2_fail)
  from top_failure_fails_request [OF demo_dates _ _ t s m f]
  show ?thesis
    by (simp add: prod_eq_iff demo_subscriptions demo_resources_1 demo_resources_2_fail
        demo_subs_def)
qed

text \<open>
  C6. Every entry that \<^verbatim>\<open>/api/top-resources\<close> returns has, as its resource name, the last
  segment of its resource id split at \<^verbatim>\<open>/\<close> (the part after the last \<^verbatim>\<open>/\<close>) when the
  resource id is truthy, which it then is as a string, and \<^verbatim>\<open>Unknown\<close> when the resource id
  is falsy (\<^verbatim>\<open>null\<close>, absent, empty). The id \<^verbatim>\<open>/sub/rg/providers/Foo/bar/myResource\<close> yields
  \<^verbatim>\<open>myResource\<close>.
\<close>

theorem resource_name_last_segment:
  assumes sd: "getprop body ''startDate'' = Inr sd" and ed: "getprop body ''endDate'' = Inr ed"
    and tok: "snd (getAccessToken w) = Inr tok"
    and subs: "snd (getSubscriptions w tok) = Inr subs"
    and reply: "snd (top_handler w body) = Reply200 rs"
    and r: "r \<in> set rs"
  shows "(if truthy (tr_resourceId r)
      then \<exists>s. tr_resourceId r = JStr s \<and>
             tr_resourceName r = JStr (last (split_on CHR ''/'' s)) \<and>
             last (split_on CHR ''/'' s) = rev (takeWhile (\<lambda>c. c \<noteq> CHR ''/'') (rev s))
      else tr_resourceName r = JStr ''Unknown'') \<and>
    (\<exists>sub\<in>set subs. \<exists>d. snd (fetchTopResources w tok (subscriptionId sub) sd ed) = Inr d \<and>
       (\<exists>raw\<in>set (payload_rows d). getindex raw 1 = Inr (tr_resourceId r))) \<and>
    resourceName_of (JStr ''/sub/rg/providers/Foo/bar/myResource'') = Inr (JStr ''myResource'') \<and>
    resourceName_of JNull = Inr (JStr ''Unknown'') \<and>
    resourceName_of JUndef = Inr (JStr ''Unknown'')"
proof -
  from top_handler_entry [OF assms] obtain sub d raw where
    sub: "sub \<in> set subs" and d: "snd (fetchTopResources w tok (subscriptionId sub) sd ed) = Inr d"
    and raw: "raw \<in> set (payload_rows d)" and row: "top_row sub raw [] = ([], Inr [r])"
    by blast
  from top_row_InrD [OF row] obtain rid name where
    rid: "getindex raw 1 = Inr rid" "tr_resourceId r = rid" "tr_resourceName r = name"
    and name: "resourceName_of rid = Inr name"
    by auto
  from resourceName_of_InrD [OF name] rid
  have "if truthy (tr_resourceId r)
      then \<exists>s. tr_resourceId r = JStr s \<and>
             tr_resourceName r = JStr (last (split_on CHR ''/'' s)) \<and>
             last (split_on CHR ''/'' s) = rev (takeWhile (\<lambda>c. c \<noteq> CHR ''/'') (rev s))
      else tr_resourceName r = JStr ''Unknown''"
    by (auto simp: last_split_on split: if_splits)
  moreover have "\<exists>sub\<in>set subs. \<exists>d.
      snd (fetchTopResources w tok (subscriptionId sub) sd ed) = Inr d \<and>
      (\<exists>raw\<in>set (payload_rows d). getindex raw 1 = Inr (tr_resourceId r))"
    using sub d raw rid by blast
  moreover have "resourceName_of JNull = Inr (JStr ''Unknown'')"
    "resourceName_of JUndef = Inr (JStr ''Unknown'')"
    by (simp_all add: resourceName_of_def)
  ultimately show ?thesis
    using resource_name_example by (simp only: simp_thms)
qed

theorem resource_name_last_segment_witness:
  "snd (top_handler (demo_world HttpFail (HttpOk (JObj [])) HttpFail) demo_body) =
     Reply200
        [\<lparr>tr_subscriptionId = JStr ''sub-1'', tr_subscriptionName = JStr ''Production'',
          tr_resourceName = JStr ''myResource'',
          tr_resourceId = JStr ''/sub/rg/providers/Foo/bar/myResource'',
          tr_meterSubCategory = JStr ''Servers'', tr_cost = 6952431924753203 / 562949953421312\<rparr>,
         \<lparr>tr_subscriptionId = JStr ''sub-1'', tr_subscriptionName = JStr ''Production'',
          tr_resourceName = JStr ''Unknown'', tr_resourceId = JNull,
          tr_meterSubCategory = JStr ''Storage'', tr_cost = 1 / 4\<rparr>] \<and>
   last (split_on CHR ''/'' ''/sub/rg/providers/Foo/bar/myResource'') = ''myResource''"
proof -
  let ?w = "demo_world HttpFail (HttpOk (JObj [])) HttpFail"
  let ?r = "\<lparr>tr_subscriptionId = JStr ''sub-1'', tr_subscriptionName = JStr ''Production'',
          tr_resourceName = JStr ''myResource'',
          tr_resourceId = JStr ''/sub/rg/providers/Foo/bar/myResource'',
          tr_meterSubCategory = JStr ''Servers'', tr_cost = 6952431924753203 / 562949953421312\<rparr>"
  let ?r' = "\<lparr>tr_subscriptionId = JStr ''sub-1'', tr_subscriptionName = JStr ''Production'',
          tr_resourceName = JStr ''Unknown'', tr_resourceId = JNull,
          tr_meterSubCategory = JStr ''Storage'', tr_cost = 1 / 4\<rparr>"
  have t: "snd (getAccessToken ?w) = Inr (JStr ''token'')" by (simp add: demo_token)
  have s: "snd (getSubscriptions ?w (JStr ''token'')) = Inr demo_subs"
    by (simp add: demo_subscriptions)
  have reply: "snd (top_handler ?w demo_body) = Reply200 [?r, ?r']"
    by (simp add: demo_top_reply)
  have r: "?r \<in> set [?r, ?r']" by simp
  from resource_name_last_segment [OF demo_dates t s reply r, THEN conjunct1]
  have "last (split_on CHR ''/'' ''/sub/rg/providers/Foo/bar/myResource'') = ''myResource''"
    by (simp del: split_on.simps)
  with reply show ?thesis by (simp del: split_on.simps)
qed

text \<open>
  C7. Every entry that \<^verbatim>\<open>/api/top-resources\<close> returns carries, as its cost, the number cost of
  a raw row of one of the listed subscriptions, put through \<^verbatim>\<open>parseFloat(cost.toFixed(2))\<close>:
  below \<open>10\<^sup>2\<^sup>1\<close> in magnitude that is the binary64 number nearest to a decimal of two places
  which is within half a hundredth of the input. The binary64 number for 12.345 is emitted
  as the one for 12.35, and the one for 12.344 as the one for 12.34.
\<close>

theorem cost_rounded_two_decimals:
  assumes sd: "getprop body ''startDate'' = Inr sd" and ed: "getprop body ''endDate'' = Inr ed"
    and tok: "snd (getAccessToken w) = Inr tok"
    and subs: "snd (getSubscriptions w tok) = Inr subs"
    and reply: "snd (top_handler w body) = Reply200 rs"
    and r: "r \<in> set rs"
  shows "(\<exists>sub\<in>set subs. \<exists>d.
       snd (fetchTopResources w tok (subscriptionId sub) sd ed) = Inr d \<and>
       (\<exists>raw\<in>set (payload_rows d). \<exists>q.
          getindex raw 0 = Inr (JNum q) \<and> tr_cost r = parseFloat_toFixed2 q \<and>
          (\<bar>q\<bar> < 10 ^ 21 \<longrightarrow>
             (\<exists>n::int. tr_cost r = rnd64 (of_int n / 100) \<and>
                \<bar>of_int n / 100 - q\<bar> \<le> 1 / 200)))) \<and>
    parseFloat_toFixed2 (rnd64 (12345 / 1000)) = rnd64 (1235 / 100) \<and>
    parseFloat_toFixed2 (rnd64 (12344 / 1000)) = rnd64 (1234 / 100)"
proof -
  from top_handler_entry [OF assms] obtain sub d raw where
    sub: "sub \<in> set subs" and d: "snd (fetchTopResources w tok (subscriptionId sub) sd ed) = Inr d"
    and raw: "raw \<in> set (payload_rows d)" and row: "top_row sub raw [] = ([], Inr [r])"
    by blast
  from top_row_InrD [OF row] obtain q where
    q: "getindex raw 0 = Inr (JNum q)" "tr_cost r = parseFloat_toFixed2 q"
    by auto
  have "\<bar>q\<bar> < 10 ^ 21 \<longrightarrow>
      (\<exists>n::int. tr_cost r = rnd64 (of_int n / 100) \<and> \<bar>of_int n / 100 - q\<bar> \<le> 1 / 200)"
    using parseFloat_toFixed2_close [of q] q(2) by simp
  with sub d raw q have "\<exists>sub\<in>set subs. \<exists>d.
       snd (fetchTopResources w tok (subscriptionId sub) sd ed) = Inr d \<and>
       (\<exists>raw\<in>set (payload_rows d). \<exists>q.
          getindex raw 0 = Inr (JNum q) \<and> tr_cost r = parseFloat_toFixed2 q \<and>
          (\<bar>q\<bar> < 10 ^ 21 \<longrightarrow>
             (\<exists>n::int. tr_cost r = rnd64 (of_int n / 100) \<and>
                \<bar>of_int n / 100 - q\<bar> \<le> 1 / 200)))"
    by blast
  with round_12345 round_12344 show ?thesis by blast
qed

theorem cost_rounded_two_decimals_witness:
  "snd (top_handler (demo_world HttpFail (HttpOk (JObj [])) HttpFail) demo_body) =
     Reply200 [demo_entry, demo_entry_unnamed] \<and>
   tr_cost demo_entry = 6952431924753203 / 562949953421312 \<and>
   rnd64 (12345 / 1000) = 6949617174986097 / 562949953421312 \<and>
   rnd64 (1235 / 100) = 6952431924753203 / 562949953421312 \<and>
   (\<exists>sub\<in>set demo_subs. \<exists>d.
       snd (fetchTopResources (demo_world HttpFail (HttpOk (JObj [])) HttpFail) (JStr ''token'')
              (subscriptionId sub) (JStr ''2024-01-01'') (JStr ''2024-01-31'')) = Inr d \<and>
       (\<exists>raw\<in>set (payload_rows d). \<exists>q.
          getindex raw 0 = Inr (JNum q) \<and> tr_cost demo_entry = parseFloat_toFixed2 q \<and>
          (\<bar>q\<bar> < 10 ^ 21 \<longrightarrow>
             (\<exists>n::int. tr_cost demo_entry = rnd64 (of_int n / 100) \<and>
                \<bar>of_int n / 100 - q\<bar> \<le> 1 / 200))))"
proof -
  let ?w = "demo_world HttpFail (HttpOk (JObj [])) HttpFail"
  have t: "snd (getAccessToken ?w) = Inr (JStr ''token'')" by (simp add: demo_token)
  have s: "snd (getSubscriptions ?w (JStr ''token'')) = Inr demo_subs"
    by (simp add: demo_subscriptions)
  have reply: "snd (top_handler ?w demo_body) = Reply200 [demo_entry, demo_entry_unnamed]"
    by (rule demo_top_entries)
  have r: "demo_entry \<in> set [demo_entry, demo_entry_unnamed]" by simp
  have c: "tr_cost demo_entry = 6952431924753203 / 562949953421312"
    by (simp add: demo_entry_def)
  note inst = cost_rounded_two_decimals [OF demo_dates t s reply r, THEN conjunct1]
  from reply c rnd64_12345 rnd64_1235 inst show ?thesis by blast
qed

text \<open>
  C5. On \<^verbatim>\<open>/api/plans\<close>, with a token and a subscription list, and every listing that comes
  back well-formed: the request is answered with status 200 and, subscription by
  subscription, the plan records that have a pricing tier; a record without one is left
  out, and so every plan returned has a truthy tier. \<^verbatim>\<open>fetchDefenderPlans\<close> never throws: a
  failed request yields \<^verbatim>\<open>null\<close>, which holds no records, so the subscription is skipped
  while the others' plans are returned.
\<close>

theorem plans_skip_failures_and_untiered:
  assumes tok: "snd (getAccessToken w) = Inr tok"
    and subs: "snd (getSubscriptions w tok) = Inr subs"
    and tables: "\<forall>sub\<in>set subs. \<forall>d.
        snd (fetchDefenderPlans w tok (subscriptionId sub)) = Inr d \<longrightarrow> plan_table d"
  shows "snd (plans_handler w) =
      Reply200 (concat (map (\<lambda>sub.
        case snd (fetchDefenderPlans w tok (subscriptionId sub)) of
          Inl e \<Rightarrow> []
        | Inr d \<Rightarrow> map (plan_entry sub) (filter has_tier (payload_plans d))) subs)) \<and>
    (\<forall>ps. snd (plans_handler w) = Reply200 ps \<longrightarrow> (\<forall>p\<in>set ps. truthy (pl_pricingTier p))) \<and>
    (\<forall>sid. \<exists>d. snd (fetchDefenderPlans w tok sid) = Inr d) \<and>
    (\<forall>sid. w (PlansRequest tok sid) = HttpFail \<longrightarrow>
       snd (fetchDefenderPlans w tok sid) = Inr JNull) \<and>
    plan_table JNull \<and> payload_plans JNull = []"
proof -
  have eq: "\<And>sub. plan_contribution sub (projr (snd (fetchDefenderPlans w tok (subscriptionId sub)))) =
      (case snd (fetchDefenderPlans w tok (subscriptionId sub)) of
          Inl e \<Rightarrow> []
        | Inr d \<Rightarrow> map (plan_entry sub) (filter has_tier (payload_plans d)))"
    by (simp add: plan_contribution_def snd_fetchDefenderPlans)
  have reply: "snd (plans_handler w) =
      Reply200 (concat (map (\<lambda>sub.
        case snd (fetchDefenderPlans w tok (subscriptionId sub)) of
          Inl e \<Rightarrow> []
        | Inr d \<Rightarrow> map (plan_entry sub) (filter has_tier (payload_plans d))) subs))"
    unfolding plans_handler_tables [OF assms] by (simp only: eq snd_conv)
  have tier: "\<forall>ps. snd (plans_handler w) = Reply200 ps \<longrightarrow>
      (\<forall>p\<in>set ps. truthy (pl_pricingTier p))"
  proof (intro allI impI ballI)
    fix ps p assume "snd (plans_handler w) = Reply200 ps" "p \<in> set ps"
    from plans_handler_entry [OF tok subs this] obtain sub plan where
      "has_tier plan" "p = plan_entry sub plan" by blast
    then show "truthy (pl_pricingTier p)" by (simp add: has_tier_def plan_entry_def)
  qed
  have total: "\<forall>sid. \<exists>d. snd (fetchDefenderPlans w tok sid) = Inr d"
    by (simp add: fetchDefenderPlans_total)
  have null: "\<forall>sid. w (PlansRequest tok sid) = HttpFail \<longrightarrow>
       snd (fetchDefenderPlans w tok sid) = Inr JNull"
    by (simp add: snd_fetchDefenderPlans)
  have "plan_table JNull" "payload_plans JNull = []"
    by (simp_all add: plan_table_def payload_plans_def)
  with reply tier total null show ?thesis by blast
qed

theorem plans_skip_failures_and_untiered_witness:
  "snd (getSubscriptions (demo_world HttpFail HttpFail HttpFail) (JStr ''token'')) =
     Inr demo_subs \<and>
   snd (fetchDefenderPlans (demo_world HttpFail HttpFail HttpFail) (JStr ''token'')
          (JStr ''sub-1'')) = Inr demo_plans \<and>
   length (payload_plans demo_plans) = 2 \<and>
   snd (fetchDefenderPlans (demo_world HttpFail HttpFail HttpFail) (JStr ''token'')
          (JStr ''sub-2'')) = Inr JNull \<and>
   snd (plans_handler (demo_world HttpFail HttpFail HttpFail)) = Reply200 [demo_plan]"
proof -
  let ?w = "demo_world HttpFail HttpFail HttpFail"
  have t: "snd (getAccessToken ?w) = Inr (JStr ''token'')" by (simp add: demo_token)
  have s: "snd (getSubscriptions ?w (JStr ''token'')) = Inr demo_subs"
    by (simp add: demo_subscriptions)
  have tables: "\<forall>sub\<in>set demo_subs. \<forall>d.
      snd (fetchDefenderPlans ?w (JStr ''token'') (subscriptionId sub)) = Inr d \<longrightarrow> plan_table d"
    by (simp add: demo_subs_def demo_plans_1 demo_plans_2 demo_plans_table)
  have two: "length (payload_plans demo_plans) = 2"
    by (simp add: payload_plans_def demo_plans_def)
  have "snd (plans_handler ?w) = Reply200 [demo_plan]"
    unfolding plans_skip_failures_and_untiered [OF t s tables, THEN conjunct1]
    by (simp add: demo_subs_def demo_plans_1 demo_plans_2 demo_plans_entries)
  with s two show ?thesis
    by (simp add: demo_plans_1 demo_plans_2)
qed

text \<open>
  C9. On each of the three paths, given the token and the subscription list of the request:
  every row of a 200 answer was built from a row (or plan record) of the answer to the
  query of one subscription of that list, and carries that subscription's id and name. So
  no row belongs to a subscription outside the list.
\<close>

theorem rows_traceable_to_subscription:
  assumes tok: "snd (getAccessToken w) = Inr tok"
    and subs: "snd (getSubscriptions w tok) = Inr subs"
  shows "(\<forall>sd ed b row.
        getprop body ''startDate'' = Inr sd \<longrightarrow> getprop body ''endDate'' = Inr ed \<longrightarrow>
        snd (costs_handler w body) = Reply200 b \<longrightarrow> row \<in> set (body_rows b) \<longrightarrow>
        (\<exists>sub\<in>set subs. length row = 6 \<and> row ! 3 = subscriptionId sub \<and>
           row ! 5 = displayName sub \<and>
           (\<exists>d. snd (fetchCostData w tok (subscriptionId sub) sd ed) = Inr d \<and>
              (\<exists>raw\<in>set (payload_rows d). row = flat_row sub (row_cells raw))))) \<and>
    (\<forall>sd ed rs r.
        getprop body ''startDate'' = Inr sd \<longrightarrow> getprop body ''endDate'' = Inr ed \<longrightarrow>
        snd (top_handler w body) = Reply200 rs \<longrightarrow> r \<in> set rs \<longrightarrow>
        (\<exists>sub\<in>set subs. tr_subscriptionId r = subscriptionId sub \<and>
           tr_subscriptionName r = displayName sub \<and>
           (\<exists>d. snd (fetchTopResources w tok (subscriptionId sub) sd ed) = Inr d \<and>
              (\<exists>raw\<in>set (payload_rows d). top_row sub raw [] = ([], Inr [r]))))) \<and>
    (\<forall>ps p.
        snd (plans_handler w) = Reply200 ps \<longrightarrow> p \<in> set ps \<longrightarrow>
        (\<exists>sub\<in>set subs. pl_subscriptionId p = subscriptionId sub \<and>
           pl_subscriptionName p = displayName sub \<and>
           (\<exists>d. snd (fetchDefenderPlans w tok (subscriptionId sub)) = Inr d \<and>
              (\<exists>plan\<in>set (payload_plans d). p = plan_entry sub plan))))"
proof (intro conjI allI impI)
  fix sd ed b row
  assume "getprop body ''startDate'' = Inr sd" "getprop body ''endDate'' = Inr ed"
    "snd (costs_handler w body) = Reply200 b" "row \<in> set (body_rows b)"
  from costs_handler_row [OF this(1,2) tok subs this(3,4)] obtain sub d raw where
    a: "sub \<in> set subs" "snd (fetchCostData w tok (subscriptionId sub) sd ed) = Inr d"
      "raw \<in> set (payload_rows d)" "row = flat_row sub (row_cells raw)"
    by blast
  with flat_row_carries [of sub "row_cells raw"]
  show "\<exists>sub\<in>set subs. length row = 6 \<and> row ! 3 = subscriptionId sub \<and>
           row ! 5 = displayName sub \<and>
           (\<exists>d. snd (fetchCostData w tok (subscriptionId sub) sd ed) = Inr d \<and>
              (\<exists>raw\<in>set (payload_rows d). row = flat_row sub (row_cells raw)))"
    by blast
next
  fix sd ed rs r
  assume "getprop body ''startDate'' = Inr sd" "getprop body ''endDate'' = Inr ed"
    "snd (top_handler w body) = Reply200 rs" "r \<in> set rs"
  from top_handler_entry [OF this(1,2) tok subs this(3,4)] obtain sub d raw where
    a: "sub \<in> set subs" "snd (fetchTopResources w tok (subscriptionId sub) sd ed) = Inr d"
      "raw \<in> set (payload_rows d)" "top_row sub raw [] = ([], Inr [r])"
    by blast
  with top_row_carries [OF a(4)]
  show "\<exists>sub\<in>set subs. tr_subscriptionId r = subscriptionId sub \<and>
           tr_subscriptionName r = displayName sub \<and>
           (\<exists>d. snd (fetchTopResources w tok (subscriptionId sub) sd ed) = Inr d \<and>
              (\<exists>raw\<in>set (payload_rows d). top_row sub raw [] = ([], Inr [r])))"
    by blast
next
  fix ps p
  assume "snd (plans_handler w) = Reply200 ps" "p \<in> set ps"
  from plans_handler_entry [OF tok subs this] obtain sub d plan where
    a: "sub \<in> set subs" "snd (fetchDefenderPlans w tok (subscriptionId sub)) = Inr d"
      "plan \<in> set (payload_plans d)" "p = plan_entry sub plan"
    by blast
  then have "pl_subscriptionId p = subscriptionId sub" "pl_subscriptionName p = displayName sub"
    by (simp_all add: plan_entry_def)
  with a
  show "\<exists>sub\<in>set subs. pl_subscriptionId p = subscriptionId sub \<and>
           pl_subscriptionName p = displayName sub \<and>
           (\<exists>d. snd (fetchDefenderPlans w tok (subscriptionId sub)) = Inr d \<and>
              (\<exists>plan\<in>set (payload_plans d). p = plan_entry sub plan))"
    by blast
qed

theorem rows_traceable_to_subscription_witness:
  "snd (getSubscriptions (demo_world HttpFail (HttpOk (JObj [])) HttpFail) (JStr ''token'')) =
     Inr demo_subs \<and>
   snd (top_handler (demo_world HttpFail (HttpOk (JObj [])) HttpFail) demo_body) =
     Reply200 [demo_entry, demo_entry_unnamed] \<and>
   snd (plans_handler (demo_world HttpFail (HttpOk (JObj [])) HttpFail)) = Reply200 [demo_plan] \<and>
   (\<exists>sub\<in>set demo_subs. tr_subscriptionId demo_entry = subscriptionId sub \<and>
       tr_subscriptionName demo_entry = displayName sub \<and>
       (\<exists>d. snd (fetchTopResources (demo_world HttpFail (HttpOk (JObj [])) HttpFail)
                  (JStr ''token'') (subscriptionId sub) (JStr ''2024-01-01'')
                  (JStr ''2024-01-31'')) = Inr d \<and>
          (\<exists>raw\<in>set (payload_rows d). top_row sub raw [] = ([], Inr [demo_entry])))) \<and>
   (\<exists>sub\<in>set demo_subs. pl_subscriptionId demo_plan = subscriptionId sub \<and>
       pl_subscriptionName demo_plan = displayName sub \<and>
       (\<exists>d. snd (fetchDefenderPlans (demo_world HttpFail (HttpOk (JObj [])) HttpFail)
                  (JStr ''token'') (subscriptionId sub)) = Inr d \<and>
          (\<exists>plan\<in>set (payload_plans d). demo_plan = plan_entry sub plan)))"
proof -
  let ?w = "demo_world HttpFail (HttpOk (JObj [])) HttpFail"
  have t: "snd (getAccessToken ?w) = Inr (JStr ''token'')" by (simp add: demo_token)
  have s: "snd (getSubscriptions ?w (JStr ''token'')) = Inr demo_subs"
    by (simp add: demo_subscriptions)
  have top: "snd (top_handler ?w demo_body) = Reply200 [demo_entry, demo_entry_unnamed]"
    by (rule demo_top_entries)
  have plans: "snd (plans_handler ?w) = Reply200 [demo_plan]"
    by (rule demo_plans_reply)
  note all = rows_traceable_to_subscription [OF t s, of demo_body]
  have r: "demo_entry \<in> set [demo_entry, demo_entry_unnamed]" by simp
  have p: "demo_plan \<in> set [demo_plan]" by simp
  note a = all [THEN conjunct2, THEN conjunct1, rule_format, OF demo_dates top r]
  note b = all [THEN conjunct2, THEN conjunct2, rule_format, OF plans p]
  from s top plans a b show ?thesis by blast
qed

text \<open>
  C10. With a date range, a token and a subscription list: on \<^verbatim>\<open>/api/costs\<close> and
  \<^verbatim>\<open>/api/top-resources\<close> a subscription whose query succeeds with an answer that lacks
  \<^verbatim>\<open>properties\<close> or \<^verbatim>\<open>properties.rows\<close>, and on \<^verbatim>\<open>/api/plans\<close> a subscription whose answer lacks
  \<^verbatim>\<open>value\<close>, adds no row, and the request is answered with status 200 and the rows of the
  other subscriptions (their answers being tabular).
\<close>

theorem missing_container_is_empty:
  assumes sd: "getprop body ''startDate'' = Inr sd" and ed: "getprop body ''endDate'' = Inr ed"
    and dates: "truthy sd" "truthy ed"
    and tok: "snd (getAccessToken w) = Inr tok"
    and subs: "snd (getSubscriptions w tok) = Inr subs"
  shows "((\<forall>sub\<in>set subs. \<forall>d.
          snd (fetchCostData w tok (subscriptionId sub) sd ed) = Inr d \<longrightarrow>
          lacks_rows d \<or> cost_table d) \<longrightarrow>
       snd (costs_handler w body) =
         Reply200 \<lparr>body_rows =
             concat (map (\<lambda>sub.
               case snd (fetchCostData w tok (subscriptionId sub) sd ed) of
                 Inl e \<Rightarrow> []
               | Inr d \<Rightarrow> if lacks_rows d then [] else cost_contribution sub (Inr d)) subs),
           body_columns = cost_columns, body_subscriptions = subs\<rparr>) \<and>
    ((\<forall>sub\<in>set subs. \<exists>d.
          snd (fetchTopResources w tok (subscriptionId sub) sd ed) = Inr d \<and>
          (lacks_rows d \<or> resource_table d)) \<longrightarrow>
       snd (top_handler w body) =
         Reply200 (sort_top (concat (map (\<lambda>sub.
           case snd (fetchTopResources w tok (subscriptionId sub) sd ed) of
             Inl e \<Rightarrow> []
           | Inr d \<Rightarrow> if lacks_rows d then [] else top_contribution sub d) subs)))) \<and>
    ((\<forall>sub\<in>set subs. \<forall>d.
          w (PlansRequest tok (subscriptionId sub)) = HttpOk d \<longrightarrow>
          lacks_value d \<or> plan_table d) \<longrightarrow>
       snd (plans_handler w) =
         Reply200 (concat (map (\<lambda>sub.
           case w (PlansRequest tok (subscriptionId sub)) of
             HttpFail \<Rightarrow> []
           | HttpOk d \<Rightarrow> if lacks_value d then [] else plan_contribution sub d) subs)))"
proof (intro conjI impI)
  assume h: "\<forall>sub\<in>set subs. \<forall>d.
      snd (fetchCostData w tok (subscriptionId sub) sd ed) = Inr d \<longrightarrow>
      lacks_rows d \<or> cost_table d"
  then have tables: "\<forall>sub\<in>set subs. \<forall>d.
      snd (fetchCostData w tok (subscriptionId sub) sd ed) = Inr d \<longrightarrow> cost_table d"
    using lacks_rows_empty(1) by blast
  have eq: "\<And>sub. cost_contribution sub (snd (fetchCostData w tok (subscriptionId sub) sd ed)) =
      (case snd (fetchCostData w tok (subscriptionId sub) sd ed) of
         Inl e \<Rightarrow> []
       | Inr d \<Rightarrow> if lacks_rows d then [] else cost_contribution sub (Inr d))"
    by (auto simp: cost_contribution_def lacks_rows_empty(3) split: sum.splits)
  show "snd (costs_handler w body) =
         Reply200 \<lparr>body_rows =
             concat (map (\<lambda>sub.
               case snd (fetchCostData w tok (subscriptionId sub) sd ed) of
                 Inl e \<Rightarrow> []
               | Inr d \<Rightarrow> if lacks_rows d then [] else cost_contribution sub (Inr d)) subs),
           body_columns = cost_columns, body_subscriptions = subs\<rparr>"
    unfolding costs_handler_tables [OF sd ed dates tok subs tables]
    by (simp only: eq snd_conv)
next
  assume h: "\<forall>sub\<in>set subs. \<exists>d.
      snd (fetchTopResources w tok (subscriptionId sub) sd ed) = Inr d \<and>
      (lacks_rows d \<or> resource_table d)"
  then have tables: "\<forall>sub\<in>set subs. \<exists>d.
      snd (fetchTopResources w tok (subscriptionId sub) sd ed) = Inr d \<and> resource_table d"
    using lacks_rows_empty(2) by blast
  have eq: "map (\<lambda>sub. top_contribution sub
        (projr (snd (fetchTopResources w tok (subscriptionId sub) sd ed)))) subs =
      map (\<lambda>sub. case snd (fetchTopResources w tok (subscriptionId sub) sd ed) of
             Inl e \<Rightarrow> []
           | Inr d \<Rightarrow> if lacks_rows d then [] else top_contribution sub d) subs"
  proof (rule map_cong [OF refl])
    fix sub assume "sub \<in> set subs"
    with tables obtain d where d: "snd (fetchTopResources w tok (subscriptionId sub) sd ed) = Inr d"
      by blast
    show "top_contribution sub (projr (snd (fetchTopResources w tok (subscriptionId sub) sd ed))) =
        (case snd (fetchTopResources w tok (subscriptionId sub) sd ed) of
             Inl e \<Rightarrow> []
           | Inr d \<Rightarrow> if lacks_rows d then [] else top_contribution sub d)"
      by (simp add: d top_contribution_def lacks_rows_empty(3))
  qed
  show "snd (top_handler w body) =
         Reply200 (sort_top (concat (map (\<lambda>sub.
           case snd (fetchTopResources w tok (subscriptionId sub) sd ed) of
             Inl e \<Rightarrow> []
           | Inr d \<Rightarrow> if lacks_rows d then [] else top_contribution sub d) subs)))"
    unfolding top_handler_tables [OF sd ed dates tok subs tables]
    by (simp only: eq snd_conv)
next
  assume h: "\<forall>sub\<in>set subs. \<forall>d.
      w (PlansRequest tok (subscriptionId sub)) = HttpOk d \<longrightarrow> lacks_value d \<or> plan_table d"
  have null: "plan_table JNull" "plan_contribution sub JNull = []" for sub
    by (simp_all add: plan_table_def plan_contribution_def payload_plans_def)
  have tables: "\<forall>sub\<in>set subs. \<forall>d.
      snd (fetchDefenderPlans w tok (subscriptionId sub)) = Inr d \<longrightarrow> plan_table d"
  proof (intro ballI allI impI)
    fix sub d
    assume sub: "sub \<in> set subs"
      and d: "snd (fetchDefenderPlans w tok (subscriptionId sub)) = Inr d"
    show "plan_table d"
    proof (cases "w (PlansRequest tok (subscriptionId sub))")
      case HttpFail
      with d have "d = JNull" by (simp add: lacks_value_null)
      then show ?thesis by (simp add: null)
    next
      case (HttpOk d')
      show ?thesis
      proof (cases "lacks_value d'")
        case True
        with d HttpOk have "d = JNull" by (simp add: lacks_value_null)
        then show ?thesis by (simp add: null)
      next
        case False
        with d HttpOk have "d = d'" by (simp add: lacks_value_null)
        with h sub HttpOk False show ?thesis by blast
      qed
    qed
  qed
  have eq: "\<And>sub. plan_contribution sub
        (projr (snd (fetchDefenderPlans w tok (subscriptionId sub)))) =
      (case w (PlansRequest tok (subscriptionId sub)) of
             HttpFail \<Rightarrow> []
           | HttpOk d \<Rightarrow> if lacks_value d then [] else plan_contribution sub d)"
    by (simp add: lacks_value_null null split: upstream.splits)
  show "snd (plans_handler w) =
         Reply200 (concat (map (\<lambda>sub.
           case w (PlansRequest tok (subscriptionId sub)) of
             HttpFail \<Rightarrow> []
           | HttpOk d \<Rightarrow> if lacks_value d then [] else plan_contribution sub d) subs))"
    unfolding plans_handler_tables [OF tok subs tables]
    by (simp only: eq snd_conv)
qed

theorem missing_container_is_empty_witness:
  "lacks_rows (JObj [(''properties'', JObj [])]) \<and> lacks_rows (JObj []) \<and>
   lacks_value (JObj []) \<and>
   snd (fetchCostData
          (demo_world (HttpOk (JObj [(''properties'', JObj [])])) (HttpOk (JObj []))
             (HttpOk (JObj [])))
          (JStr ''token'') (JStr ''sub-2'') (JStr ''2024-01-01'') (JStr ''2024-01-31'')) =
     Inr (JObj [(''properties'', JObj [])]) \<and>
   snd (costs_handler
          (demo_world (HttpOk (JObj [(''properties'', JObj [])])) (HttpOk (JObj []))
             (HttpOk (JObj []))) demo_body) =
     Reply200 \<lparr>body_rows =
       [[JNum (5 / 2), JStr ''Microsoft Defender for Cloud'', JStr ''Servers'', JStr ''sub-1'',
         JStr ''rg-app'', JStr ''Production''],
        [JNum 7, JStr ''Microsoft Defender for Cloud'', JStr ''Storage'', JStr ''sub-1'',
         JStr ''Unknown'', JStr ''Production'']],
       body_columns = cost_columns, body_subscriptions = demo_subs\<rparr> \<and>
   snd (top_handler
          (demo_world (HttpOk (JObj [(''properties'', JObj [])])) (HttpOk (JObj []))
             (HttpOk (JObj []))) demo_body) =
     Reply200 [demo_entry, demo_entry_unnamed] \<and>
   snd (plans_handler
          (demo_world (HttpOk (JObj [(''properties'', JObj [])])) (HttpOk (JObj []))
             (HttpOk (JObj [])))) =
     Reply200 [demo_plan]"
proof -
  let ?w = "demo_world (HttpOk (JObj [(''properties'', JObj [])])) (HttpOk (JObj []))
             (HttpOk (JObj []))"
  let ?tok = "JStr ''token''"
  let ?sd = "JStr ''2024-01-01''"
  let ?ed = "JStr ''2024-01-31''"
  have t: "snd (getAccessToken ?w) = Inr ?tok" by (simp add: demo_token)
  have s: "snd (getSubscriptions ?w ?tok) = Inr demo_subs"
    by (simp add: demo_subscriptions)
  have l: "lacks_rows (JObj [(''properties'', JObj [])])" "lacks_rows (JObj [])"
    "lacks_value (JObj [])"
    by (simp_all add: lacks_rows_def lacks_value_def)
  have c2: "snd (fetchCostData ?w ?tok (JStr ''sub-2'') ?sd ?ed) =
      Inr (JObj [(''properties'', JObj [])])"
    by (simp add: demo_cost_2)
  have p2: "?w (PlansRequest ?tok (JStr ''sub-2'')) = HttpOk (JObj [])"
    "?w (PlansRequest ?tok (JStr ''sub-1'')) = HttpOk demo_plans"
    by (simp_all add: demo_world_def)
  note all = missing_container_is_empty [of demo_body ?sd ?ed ?w ?tok demo_subs,
      OF demo_dates _ _ t s, simplified]
  have hc: "\<forall>sub\<in>set demo_subs. \<forall>d.
      snd (fetchCostData ?w ?tok (subscriptionId sub) ?sd ?ed) = Inr d \<longrightarrow>
      lacks_rows d \<or> cost_table d"
    by (simp add: demo_subs_def demo_cost_1 c2 l demo_costs_table)
  have hr: "\<forall>sub\<in>set demo_subs. \<exists>d.
      snd (fetchTopResources ?w ?tok (subscriptionId sub) ?sd ?ed) = Inr d \<and>
      (lacks_rows d \<or> resource_table d)"
    by (simp add: demo_subs_def demo_resources_1 demo_resources_2 l demo_resources_table)
  have hp: "\<forall>sub\<in>set demo_subs. \<forall>d.
      ?w (PlansRequest ?tok (subscriptionId sub)) = HttpOk d \<longrightarrow> lacks_value d \<or> plan_table d"
    by (simp add: demo_subs_def p2 l demo_plans_table)
  have nl: "\<not> lacks_rows demo_costs" "\<not> lacks_rows demo_resources" "\<not> lacks_value demo_plans"
    by (simp_all add: lacks_rows_def lacks_value_def demo_costs_def demo_resources_def
        demo_plans_def)
  have costs: "snd (costs_handler ?w demo_body) =
     Reply200 \<lparr>body_rows =
       [[JNum (5 / 2), JStr ''Microsoft Defender for Cloud'', JStr ''Servers'', JStr ''sub-1'',
         JStr ''rg-app'', JStr ''Production''],
        [JNum 7, JStr ''Microsoft Defender for Cloud'', JStr ''Storage'', JStr ''sub-1'',
         JStr ''Unknown'', JStr ''Production'']],
       body_columns = cost_columns, body_subscriptions = demo_subs\<rparr>"
    unfolding all [THEN conjunct1, THEN mp, OF hc]
    by (simp add: demo_subs_def demo_cost_1 c2 l nl demo_costs_entries)
  have top: "snd (top_handler ?w demo_body) = Reply200 [demo_entry, demo_entry_unnamed]"
    unfolding all [THEN conjunct2, THEN conjunct1, THEN mp, OF hr]
    by (simp add: demo_subs_def demo_resources_1 demo_resources_2 l nl demo_top_contribution
        demo_sort_top)
  have plans: "snd (plans_handler ?w) = Reply200 [demo_plan]"
    unfolding all [THEN conjunct2, THEN conjunct2, THEN mp, OF hp]
    by (simp add: demo_subs_def p2 l nl plan_contribution_def demo_plans_entries)
  from l c2 costs top plans show ?thesis by blast
qed

end
